theory Spec2Isabelle
  imports Complex_Main "HOL-Library.AList"
begin

section \<open>Image token estimation\<close>

text \<open>
  JavaScript numbers are modelled exactly: pixel dimensions and token counts as \<open>int\<close>,
  ratios and costs as \<open>rat\<close>. Rounding of IEEE doubles is outside the model.
\<close>

text \<open>\<open>String.prototype.toLowerCase\<close>, on the ASCII letters.\<close>

definition lowerChar :: "char \<Rightarrow> char" where
  "lowerChar c =
     (let n = (of_char c :: nat)
      in if 65 \<le> n \<and> n \<le> 90 then char_of (n + 32) else c)"

definition toLowerCase :: "string \<Rightarrow> string" where
  "toLowerCase s = map lowerChar s"

text \<open>
  \<open>countImageTokens(width, height, detail)\<close>. The function is \<open>async\<close> but awaits
  nothing; the model is the value its promise resolves with. When \<open>height = 0\<close> inside
  the scaling branch, \<open>width > 2048\<close> holds, so \<open>width / height\<close> is \<open>+Infinity\<close>,
  the first branch is taken and \<open>Math.floor(2048 / Infinity) = 0\<close>.
\<close>

definition countImageTokens :: "int \<Rightarrow> int \<Rightarrow> string \<Rightarrow> int" where
  "countImageTokens width height detail =
     (if toLowerCase detail = ''low'' then 85
      else
        let (width', height') =
              (if width > 2048 \<or> height > 2048 then
                 (if height = 0 then (2048, 0)
                  else
                    let aspectRatio = (of_int width / of_int height :: rat)
                    in if aspectRatio > 1
                       then (2048, \<lfloor>2048 / aspectRatio\<rfloor>)
                       else (\<lfloor>2048 * aspectRatio\<rfloor>, 2048))
               else (width, height));
            tilesWide = \<lceil>(of_int width' :: rat) / 512\<rceil>;
            tilesHigh = \<lceil>(of_int height' :: rat) / 512\<rceil>;
            numTiles = tilesWide * tilesHigh
        in 85 + 170 * numTiles)"

text \<open>
  The specification's wording of the scaling step: when the larger side exceeds 2048, both
  dimensions are multiplied by the same factor \<open>2048 / larger side\<close> and floored.
\<close>

definition scaledProportionally :: "int \<Rightarrow> int \<Rightarrow> int \<times> int" where
  "scaledProportionally width height =
     (if max width height > 2048 then
        (let factor = (2048 / of_int (max width height) :: rat)
         in (\<lfloor>of_int width * factor\<rfloor>, \<lfloor>of_int height * factor\<rfloor>))
      else (width, height))"

definition highDetailTokens :: "int \<Rightarrow> int \<Rightarrow> int" where
  "highDetailTokens width height =
     (let (w, h) = scaledProportionally width height
      in 85 + 170 * (\<lceil>(of_int w :: rat) / 512\<rceil> * \<lceil>(of_int h :: rat) / 512\<rceil>))"

section \<open>Aggregation data structures\<close>

text \<open>
  \<open>HourBucket\<close> and \<open>BucketWithHours\<close>: the second interface repeats the five counters of
  the first and adds the array of hour buckets, so it is the record extension. Token
  counts are integers. A cost is the exact rational value of the source's expression:
  the source computes it in floating point, so its value is this one up to rounding,
  and an equation between two sums of costs that are added in different orders holds
  here without holding there. No property below states such an equation.
\<close>

record HourBucket =
  input_tokens :: int
  output_tokens :: int
  cost :: rat
  message_count :: nat
  conversation_count :: nat

record BucketWithHours = HourBucket +
  hours :: "HourBucket list"

text \<open>
  A \<open>Record<string, T>\<close> is an association list in insertion order; \<open>map_of\<close> reads a
  key and \<open>AList.update\<close> overwrites it in place or appends it. Keys inherited from
  \<open>Object.prototype\<close> are outside the model. The field \<open>total\<close> of a day bucket is
  \<open>totalB\<close> here, and the fields \<open>input\<close> and \<open>output\<close> of a pricing entry are
  \<open>inputRate\<close> and \<open>outputRate\<close>, since the source's names are taken in Isabelle.
\<close>

record DayBucket =
  totalB :: BucketWithHours
  models :: "(string \<times> BucketWithHours) list"

record Aggregator =
  usageByDay :: "(string \<times> DayBucket) list"
  startDate :: "string option"
  endDate :: "string option"
  totalCostAllModels :: "rat option"
  allModelSlugs :: "string list"

record CostCfg =
  inputRate :: rat
  outputRate :: rat

type_synonym costs = "(string \<times> CostCfg) list"

text \<open>A JavaScript number that is either a finite value or \<open>NaN\<close>.\<close>

datatype jsnum = Num rat | NaN

datatype error = TypeError | TokenizerRejected

definition MODEL_COSTS :: costs where
  "MODEL_COSTS =
     [(''o1-pro'', \<lparr>inputRate = 150, outputRate = 600\<rparr>),
      (''o1-mini'', \<lparr>inputRate = 11 / 10, outputRate = 44 / 10\<rparr>),
      (''o4-mini-high'', \<lparr>inputRate = 11 / 10, outputRate = 44 / 10\<rparr>),
      (''o4-mini'', \<lparr>inputRate = 11 / 10, outputRate = 44 / 10\<rparr>),
      (''gpt-4'', \<lparr>inputRate = 30, outputRate = 60\<rparr>),
      (''gpt-4-turbo'', \<lparr>inputRate = 10, outputRate = 30\<rparr>),
      (''gpt-4o'', \<lparr>inputRate = 5, outputRate = 15\<rparr>),
      (''gpt-3.5-turbo'', \<lparr>inputRate = 1 / 2, outputRate = 3 / 2\<rparr>),
      (''o3-mini'', \<lparr>inputRate = 11 / 10, outputRate = 44 / 10\<rparr>),
      (''o3-mini-high'', \<lparr>inputRate = 11 / 10, outputRate = 44 / 10\<rparr>),
      (''gpt-4o-jawbone'', \<lparr>inputRate = 5 / 2, outputRate = 10\<rparr>),
      (''gpt-4-5'', \<lparr>inputRate = 75, outputRate = 150\<rparr>),
      (''text-davinci-002-render-sha'', \<lparr>inputRate = 12, outputRate = 12\<rparr>),
      (''o1'', \<lparr>inputRate = 15, outputRate = 60\<rparr>),
      (''o3'', \<lparr>inputRate = 10, outputRate = 40\<rparr>),
      (''o1-preview'', \<lparr>inputRate = 15, outputRate = 60\<rparr>),
      (''gpt-4o-mini'', \<lparr>inputRate = 15 / 100, outputRate = 6 / 10\<rparr>),
      (''gpt-4-gizmo'', \<lparr>inputRate = 30, outputRate = 60\<rparr>),
      (''gpt-4-code-interpreter'', \<lparr>inputRate = 30, outputRate = 60\<rparr>),
      (''auto'', \<lparr>inputRate = 5, outputRate = 15\<rparr>),
      (''research'', \<lparr>inputRate = 11 / 10, outputRate = 44 / 10\<rparr>),
      (''dalle-2'', \<lparr>inputRate = 0, outputRate = 0\<rparr>),
      (''dalle-3'', \<lparr>inputRate = 0, outputRate = 0\<rparr>),
      (''gpt-image-1'', \<lparr>inputRate = 0, outputRate = 0\<rparr>)]"

definition IMAGE_MODEL_COSTS :: "(string \<times> rat) list" where
  "IMAGE_MODEL_COSTS =
     [(''dalle-2'', 2 / 100), (''dalle-3'', 8 / 100), (''gpt-image-1'', 167 / 1000)]"

definition createHourBucket :: HourBucket where
  "createHourBucket =
     \<lparr>input_tokens = 0, output_tokens = 0, cost = 0, message_count = 0,
      conversation_count = 0\<rparr>"

definition createBucketWithHours :: BucketWithHours where
  "createBucketWithHours =
     \<lparr>input_tokens = 0, output_tokens = 0, cost = 0, message_count = 0,
      conversation_count = 0, hours = replicate 24 createHourBucket\<rparr>"

definition createDayBucket :: DayBucket where
  "createDayBucket = \<lparr>totalB = createBucketWithHours, models = []\<rparr>"

definition emptyAggregator :: Aggregator where
  "emptyAggregator =
     \<lparr>usageByDay = [], startDate = None, endDate = None, totalCostAllModels = Some 0,
      allModelSlugs = []\<rparr>"

text \<open>
  \<open>hs[hour]\<close>: an element when \<open>hour\<close> is an integer index inside the array, and
  \<open>undefined\<close> otherwise (\<open>NaN\<close>, a fraction, a negative number, 24 and above).
\<close>

definition hourIndex :: "'a list \<Rightarrow> jsnum \<Rightarrow> nat option" where
  "hourIndex hs hour =
     (case hour of
        NaN \<Rightarrow> None
      | Num q \<Rightarrow>
          if of_int \<lfloor>q\<rfloor> = q \<and> 0 \<le> q \<and> nat \<lfloor>q\<rfloor> < length hs then Some (nat \<lfloor>q\<rfloor>)
          else None)"

text \<open>The four \<open>+=\<close> lines the code repeats at each of its four locations.\<close>

definition addUsage ::
  "int \<Rightarrow> int \<Rightarrow> rat \<Rightarrow> 'a HourBucket_scheme \<Rightarrow> 'a HourBucket_scheme" where
  "addUsage inputTokens outputTokens c b =
     b\<lparr>input_tokens := input_tokens b + inputTokens,
       output_tokens := output_tokens b + outputTokens,
       cost := cost b + c,
       message_count := message_count b + 1\<rparr>"

text \<open>
  The eight \<open>+=\<close> lines on one bucket: its hour entry first, then its daily totals.
\<close>

definition bumpBucket ::
  "int \<Rightarrow> int \<Rightarrow> rat \<Rightarrow> nat \<Rightarrow> BucketWithHours \<Rightarrow> BucketWithHours" where
  "bumpBucket inputTokens outputTokens c h b =
     addUsage inputTokens outputTokens c
       (b\<lparr>hours := list_update (hours b) h (addUsage inputTokens outputTokens c (hours b ! h))\<rparr>)"

text \<open>
  \<open>updateAggregatorUsage\<close>. The code mutates the aggregator in place; the model returns
  the aggregator as the call leaves it, together with the exception when one is thrown.
  Reading a property of \<open>undefined\<close> (\<open>hours[hour]\<close> with no such element) throws a
  \<open>TypeError\<close>; by then the day bucket and the model bucket have been created, and at the
  second array the model bucket has been updated. \<open>getDayBucket\<close> and \<open>getModelBucket\<close>
  are the two "ensure the bucket exists" steps, \<open>usageCost\<close> is the cost computed in
  between, and \<open>storeBuckets\<close> puts the written buckets back into the aggregator.
\<close>

definition getDayBucket :: "Aggregator \<Rightarrow> string \<Rightarrow> DayBucket" where
  "getDayBucket aggregator dayKey =
     (case map_of (usageByDay aggregator) dayKey of
        None \<Rightarrow> createDayBucket | Some d \<Rightarrow> d)"

definition getModelBucket :: "DayBucket \<Rightarrow> string \<Rightarrow> BucketWithHours" where
  "getModelBucket dayBucket modelSlug =
     (case map_of (models dayBucket) modelSlug of
        None \<Rightarrow> createBucketWithHours | Some b \<Rightarrow> b)"

definition usageCost :: "costs \<Rightarrow> string \<Rightarrow> int \<Rightarrow> int \<Rightarrow> rat" where
  "usageCost modelCosts modelSlug inputTokens outputTokens =
     (case map_of IMAGE_MODEL_COSTS modelSlug of
        Some perImage \<Rightarrow> of_int outputTokens * perImage
      | None \<Rightarrow>
          let costCfg =
                (case map_of modelCosts modelSlug of
                   Some cfg \<Rightarrow> cfg
                 | None \<Rightarrow> \<lparr>inputRate = 0, outputRate = 0\<rparr>)
          in (of_int inputTokens / 1000000) * inputRate costCfg +
             (of_int outputTokens / 1000000) * outputRate costCfg)"

definition storeBuckets ::
  "Aggregator \<Rightarrow> string \<Rightarrow> DayBucket \<Rightarrow> string \<Rightarrow> BucketWithHours \<Rightarrow> BucketWithHours
     \<Rightarrow> Aggregator" where
  "storeBuckets aggregator dayKey dayBucket modelSlug mb tb =
     aggregator\<lparr>usageByDay :=
       AList.update dayKey
         (dayBucket\<lparr>totalB := tb, models := AList.update modelSlug mb (models dayBucket)\<rparr>)
         (usageByDay aggregator)\<rparr>"

definition updateAggregatorUsage ::
  "costs \<Rightarrow> string \<Rightarrow> jsnum \<Rightarrow> string \<Rightarrow> int \<Rightarrow> int \<Rightarrow> Aggregator
     \<Rightarrow> (error + unit) \<times> Aggregator" where
  "updateAggregatorUsage modelCosts dayKey hour modelSlug inputTokens outputTokens aggregator =
     (let dayBucket = getDayBucket aggregator dayKey;
          modelBucket = getModelBucket dayBucket modelSlug;
          c = usageCost modelCosts modelSlug inputTokens outputTokens
      in case hourIndex (hours modelBucket) hour of
           None \<Rightarrow>
             (Inl TypeError,
              storeBuckets aggregator dayKey dayBucket modelSlug modelBucket (totalB dayBucket))
         | Some h \<Rightarrow>
             let modelBucket' = bumpBucket inputTokens outputTokens c h modelBucket
             in case hourIndex (hours (totalB dayBucket)) hour of
                  None \<Rightarrow>
                    (Inl TypeError,
                     storeBuckets aggregator dayKey dayBucket modelSlug modelBucket'
                       (totalB dayBucket))
                | Some h' \<Rightarrow>
                    (Inr (),
                     storeBuckets aggregator dayKey dayBucket modelSlug modelBucket'
                       (bumpBucket inputTokens outputTokens c h' (totalB dayBucket))))"

text \<open>
  The rollup at the end of \<open>processConversation\<close>: one conversation added to the day's
  total and to each model of the set. The day bucket is read without a check, so a missing
  day throws.
\<close>

definition countConversation :: "'a HourBucket_scheme \<Rightarrow> 'a HourBucket_scheme" where
  "countConversation b = b\<lparr>conversation_count := conversation_count b + 1\<rparr>"

definition countModelConversation :: "string \<Rightarrow> DayBucket \<Rightarrow> DayBucket" where
  "countModelConversation modelSlug dayBucket =
     dayBucket\<lparr>models :=
       AList.update modelSlug (countConversation (getModelBucket dayBucket modelSlug))
         (models dayBucket)\<rparr>"

definition conversationRollup ::
  "string \<Rightarrow> string list \<Rightarrow> Aggregator \<Rightarrow> (error + unit) \<times> Aggregator" where
  "conversationRollup dayKey modelsUsedInConversation aggregator =
     (if dayKey \<noteq> ''unknown-day'' \<and> modelsUsedInConversation \<noteq> [] then
        (case map_of (usageByDay aggregator) dayKey of
           None \<Rightarrow> (Inl TypeError, aggregator)
         | Some dayBucket \<Rightarrow>
             (Inr (),
              aggregator\<lparr>usageByDay :=
                AList.update dayKey
                  (fold countModelConversation modelsUsedInConversation
                     (dayBucket\<lparr>totalB := countConversation (totalB dayBucket)\<rparr>))
                  (usageByDay aggregator)\<rparr>))
      else (Inr (), aggregator))"

text \<open>
  Sequences of the two operations that write the counters. A caller may catch an
  exception and go on, so a sequence continues from the aggregator a throwing call leaves.
\<close>

datatype aggregatorOp =
  UsageOp costs string jsnum string int int
| RollupOp string "string list"

fun applyOp :: "aggregatorOp \<Rightarrow> Aggregator \<Rightarrow> Aggregator" where
  "applyOp (UsageOp modelCosts dayKey hour modelSlug tokensIn tokensOut) aggregator =
     snd (updateAggregatorUsage modelCosts dayKey hour modelSlug tokensIn tokensOut aggregator)"
| "applyOp (RollupOp dayKey modelsUsedInConversation) aggregator =
     snd (conversationRollup dayKey modelsUsedInConversation aggregator)"

definition runOps :: "aggregatorOp list \<Rightarrow> Aggregator \<Rightarrow> Aggregator" where
  "runOps ops aggregator = fold applyOp ops aggregator"

text \<open>A property of every \<open>BucketWithHours\<close> of an aggregator: day totals and models.\<close>

definition allBuckets :: "(BucketWithHours \<Rightarrow> bool) \<Rightarrow> Aggregator \<Rightarrow> bool" where
  "allBuckets P aggregator =
     list_all (\<lambda>(dayKey, d). P (totalB d) \<and> list_all (\<lambda>(slug, b). P b) (models d))
       (usageByDay aggregator)"

text \<open>
  The sum of a field over the hour buckets equals the bucket's total, for the three
  integer fields that \<open>updateAggregatorUsage\<close> writes; the array has 24 entries.
\<close>

definition bucketSums :: "BucketWithHours \<Rightarrow> bool" where
  "bucketSums b =
     (length (hours b) = 24 \<and>
      sum_list (map input_tokens (hours b)) = input_tokens b \<and>
      sum_list (map output_tokens (hours b)) = output_tokens b \<and>
      sum_list (map message_count (hours b)) = message_count b)"

definition conversationSum :: "BucketWithHours \<Rightarrow> bool" where
  "conversationSum b = (sum_list (map conversation_count (hours b)) = conversation_count b)"

definition hourConversationsZero :: "BucketWithHours \<Rightarrow> bool" where
  "hourConversationsZero b = list_all (\<lambda>hb. conversation_count hb = 0) (hours b)"

section \<open>The rolling-context accumulator\<close>

text \<open>
  An element of the flat message array. Each counter and the role may be missing
  (\<open>None\<close>), which the code replaces by a default with \<open>??\<close>; the two flags are
  read for their truthiness.
\<close>

record FlatMsg =
  role :: "string option"
  contentTokens :: "int option"
  outputTokens :: "int option"
  searchTokens :: "int option"
  model_slug :: "string option"
  isReasoningMessage :: bool
  isReasoningRecap :: bool
  isFinalMessage :: bool

definition roleOf :: "FlatMsg \<Rightarrow> string" where
  "roleOf msg = (case role msg of None \<Rightarrow> ''unknown'' | Some r \<Rightarrow> r)"

definition contentOf :: "FlatMsg \<Rightarrow> int" where
  "contentOf msg = (case contentTokens msg of None \<Rightarrow> 0 | Some n \<Rightarrow> n)"

definition searchOf :: "FlatMsg \<Rightarrow> int" where
  "searchOf msg = (case searchTokens msg of None \<Rightarrow> 0 | Some n \<Rightarrow> n)"

definition outputOf :: "FlatMsg \<Rightarrow> int" where
  "outputOf msg = (case outputTokens msg of None \<Rightarrow> 0 | Some n \<Rightarrow> n)"

definition slugOf :: "FlatMsg \<Rightarrow> string" where
  "slugOf msg = (case model_slug msg of None \<Rightarrow> ''unknown_model'' | Some m \<Rightarrow> m)"

text \<open>A \<open>Set<string>\<close> is a duplicate-free list in insertion order.\<close>

definition setAdd :: "string \<Rightarrow> string list \<Rightarrow> string list" where
  "setAdd x xs = (if x \<in> set xs then xs else xs @ [x])"

record FlatState =
  rollingContextTokens :: int
  rollingOutputTokens :: int
  modelsUsed :: "string list"

definition initialFlatState :: FlatState where
  "initialFlatState = \<lparr>rollingContextTokens = 0, rollingOutputTokens = 0, modelsUsed = []\<rparr>"

text \<open>A usage update: the model slug, the input tokens and the output tokens committed.\<close>

type_synonym usageUpdate = "string \<times> int \<times> int"

text \<open>
  One iteration of the loop of \<open>processFlatMessagesWithTokenCounts\<close>: the local
  variables after the iteration, and the arguments of the call of
  \<open>updateAggregatorUsage\<close> when the iteration makes one.
\<close>

definition flatStep :: "FlatMsg \<Rightarrow> FlatState \<Rightarrow> FlatState \<times> usageUpdate option" where
  "flatStep msg s =
     (if isReasoningRecap msg then (s, None)
      else
        let ctx1 = (if searchOf msg > 0 then rollingContextTokens s + searchOf msg
                    else rollingContextTokens s)
        in if roleOf msg = ''user'' \<or> roleOf msg = ''system'' \<or> roleOf msg = ''tool''
           then (s\<lparr>rollingContextTokens := ctx1 + contentOf msg\<rparr>, None)
           else if roleOf msg = ''assistant'' then
             let used = (if slugOf msg \<noteq> ''unknown_model'' then setAdd (slugOf msg) (modelsUsed s)
                         else modelsUsed s);
                 ctx2 = ctx1 + (contentOf msg + outputOf msg);
                 out2 = rollingOutputTokens s + outputOf msg
             in if isFinalMessage msg
                then (\<lparr>rollingContextTokens = ctx2, rollingOutputTokens = 0, modelsUsed = used\<rparr>,
                      Some (slugOf msg, ctx2, out2))
                else (\<lparr>rollingContextTokens = ctx2, rollingOutputTokens = out2,
                       modelsUsed = used\<rparr>, None)
           else (s\<lparr>rollingContextTokens := ctx1\<rparr>, None))"

fun processFlatLoop ::
  "costs \<Rightarrow> FlatMsg list \<Rightarrow> string \<Rightarrow> jsnum \<Rightarrow> FlatState \<Rightarrow> Aggregator
     \<Rightarrow> (error + FlatState) \<times> Aggregator" where
  "processFlatLoop modelCosts [] dayKey hour s aggregator = (Inr s, aggregator)"
| "processFlatLoop modelCosts (msg # rest) dayKey hour s aggregator =
     (case flatStep msg s of
        (s', None) \<Rightarrow> processFlatLoop modelCosts rest dayKey hour s' aggregator
      | (s', Some (slug, tokensIn, tokensOut)) \<Rightarrow>
          (case updateAggregatorUsage modelCosts dayKey hour slug tokensIn tokensOut
                  aggregator of
             (Inl e, a) \<Rightarrow> (Inl e, a)
           | (Inr u, a) \<Rightarrow> processFlatLoop modelCosts rest dayKey hour s' a))"

definition processFlatMessagesWithTokenCounts ::
  "costs \<Rightarrow> FlatMsg list \<Rightarrow> string \<Rightarrow> jsnum \<Rightarrow> Aggregator
     \<Rightarrow> (error + string list) \<times> Aggregator" where
  "processFlatMessagesWithTokenCounts modelCosts messages dayKey hour aggregator =
     (case processFlatLoop modelCosts messages dayKey hour initialFlatState aggregator of
        (Inl e, a) \<Rightarrow> (Inl e, a)
      | (Inr s, a) \<Rightarrow> (Inr (modelsUsed s), a))"

text \<open>The loop without the aggregator: the counters it ends with and the updates it makes.\<close>

fun flatRun :: "FlatMsg list \<Rightarrow> FlatState \<Rightarrow> FlatState \<times> usageUpdate list" where
  "flatRun [] s = (s, [])"
| "flatRun (msg # rest) s =
     (case flatStep msg s of
        (s', None) \<Rightarrow> flatRun rest s'
      | (s', Some u) \<Rightarrow> (case flatRun rest s' of (s'', us) \<Rightarrow> (s'', u # us)))"

text \<open>A sequence of usage updates committed in order, up to the first that throws.\<close>

fun commitAll ::
  "costs \<Rightarrow> string \<Rightarrow> jsnum \<Rightarrow> usageUpdate list \<Rightarrow> Aggregator
     \<Rightarrow> (error + unit) \<times> Aggregator" where
  "commitAll modelCosts dayKey hour [] aggregator = (Inr (), aggregator)"
| "commitAll modelCosts dayKey hour ((slug, tokensIn, tokensOut) # us) aggregator =
     (case updateAggregatorUsage modelCosts dayKey hour slug tokensIn tokensOut
             aggregator of
        (Inl e, a) \<Rightarrow> (Inl e, a)
      | (Inr u, a) \<Rightarrow> commitAll modelCosts dayKey hour us a)"

text \<open>
  The accumulator in the specification's words, on the two counters \<open>contextTokens\<close>
  and \<open>pendingOutputTokens\<close>: the counters after an entry and the usage update it
  commits, if any.
\<close>

definition specStep :: "FlatMsg \<Rightarrow> int \<times> int \<Rightarrow> (int \<times> int) \<times> usageUpdate list" where
  "specStep entry counters =
     (let contextTokens = fst counters; pendingOutputTokens = snd counters
      in if isReasoningRecap entry then ((contextTokens, pendingOutputTokens), [])
         else if roleOf entry \<in> {''user'', ''system'', ''tool''} then
           ((contextTokens + searchOf entry + contentOf entry, pendingOutputTokens), [])
         else if roleOf entry = ''assistant'' then
           (let contextTokens' = contextTokens + searchOf entry + contentOf entry + outputOf entry;
                pendingOutputTokens' = pendingOutputTokens + outputOf entry
            in if isFinalMessage entry
               then ((contextTokens', 0), [(slugOf entry, contextTokens', pendingOutputTokens')])
               else ((contextTokens', pendingOutputTokens'), []))
         else ((contextTokens + searchOf entry, pendingOutputTokens), []))"

fun specRun :: "FlatMsg list \<Rightarrow> int \<times> int \<Rightarrow> (int \<times> int) \<times> usageUpdate list" where
  "specRun [] counters = (counters, [])"
| "specRun (entry # rest) counters =
     (case specStep entry counters of
        (counters', us) \<Rightarrow> (case specRun rest counters' of (c, us') \<Rightarrow> (c, us @ us')))"

text \<open>Token counts are counts: an entry is well formed when none is negative.\<close>

definition wfEntry :: "FlatMsg \<Rightarrow> bool" where
  "wfEntry msg = (0 \<le> contentOf msg \<and> 0 \<le> outputOf msg \<and> 0 \<le> searchOf msg)"

text \<open>Sample inputs on which the statements below are evaluated.\<close>

definition sampleEntries :: "FlatMsg list" where
  "sampleEntries =
     [\<lparr>role = Some ''user'', contentTokens = Some 4, outputTokens = None,
        searchTokens = None, model_slug = None, isReasoningMessage = False,
        isReasoningRecap = False, isFinalMessage = False\<rparr>,
      \<lparr>role = Some ''tool'', contentTokens = Some 2, outputTokens = Some 0,
        searchTokens = Some 7, model_slug = None, isReasoningMessage = False,
        isReasoningRecap = False, isFinalMessage = False\<rparr>,
      \<lparr>role = Some ''assistant'', contentTokens = Some 9, outputTokens = Some 9,
        searchTokens = Some 0, model_slug = Some ''gpt-4o'', isReasoningMessage = False,
        isReasoningRecap = True, isFinalMessage = True\<rparr>,
      \<lparr>role = Some ''assistant'', contentTokens = Some 1, outputTokens = Some 5,
        searchTokens = Some 0, model_slug = Some ''gpt-4o'', isReasoningMessage = False,
        isReasoningRecap = False, isFinalMessage = True\<rparr>]"

text \<open>
  The conversation of the specification's rolling-context example: user "A" with one
  content token, assistant "B" with one output token and final, user "C", assistant "D".
\<close>

definition twoTurns :: "string \<Rightarrow> FlatMsg list" where
  "twoTurns slug =
     [\<lparr>role = Some ''user'', contentTokens = Some 1, outputTokens = Some 0,
        searchTokens = Some 0, model_slug = Some slug, isReasoningMessage = False,
        isReasoningRecap = False, isFinalMessage = False\<rparr>,
      \<lparr>role = Some ''assistant'', contentTokens = Some 0, outputTokens = Some 1,
        searchTokens = Some 0, model_slug = Some slug, isReasoningMessage = False,
        isReasoningRecap = False, isFinalMessage = True\<rparr>,
      \<lparr>role = Some ''user'', contentTokens = Some 1, outputTokens = Some 0,
        searchTokens = Some 0, model_slug = Some slug, isReasoningMessage = False,
        isReasoningRecap = False, isFinalMessage = False\<rparr>,
      \<lparr>role = Some ''assistant'', contentTokens = Some 0, outputTokens = Some 1,
        searchTokens = Some 0, model_slug = Some slug, isReasoningMessage = False,
        isReasoningRecap = False, isFinalMessage = True\<rparr>]"

text \<open>Input tokens, output tokens and message count of a day's total, when the day exists.\<close>

definition dayTotals :: "Aggregator \<Rightarrow> string \<Rightarrow> (int \<times> int \<times> nat) option" where
  "dayTotals aggregator dayKey =
     map_option
       (\<lambda>d. (input_tokens (totalB d), output_tokens (totalB d), message_count (totalB d)))
       (map_of (usageByDay aggregator) dayKey)"

text \<open>
  Reading a day's total bucket and a model's bucket; a bucket that does not exist reads as
  the zeroed bucket its creation would give.
\<close>

definition dayTotal :: "Aggregator \<Rightarrow> string \<Rightarrow> BucketWithHours" where
  "dayTotal aggregator dayKey = totalB (getDayBucket aggregator dayKey)"

definition modelTotal :: "Aggregator \<Rightarrow> string \<Rightarrow> string \<Rightarrow> BucketWithHours" where
  "modelTotal aggregator dayKey modelSlug =
     getModelBucket (getDayBucket aggregator dayKey) modelSlug"

text \<open>
  \<open>getCost\<close> in the specification's words: a slug with a flat per-image rate costs the
  output tokens (the image count) times that rate; any other slug costs its tokens per
  million at the rates of the pricing table, which are 0 and 0 for an absent slug.
\<close>

definition getCost :: "costs \<Rightarrow> string \<Rightarrow> int \<Rightarrow> int \<Rightarrow> rat" where
  "getCost modelCosts slug tokensIn tokensOut =
     (case map_of IMAGE_MODEL_COSTS slug of
        Some perImage \<Rightarrow> of_int tokensOut * perImage
      | None \<Rightarrow>
          (case map_of modelCosts slug of
             Some rates \<Rightarrow>
               of_int tokensIn / 1000000 * inputRate rates +
               of_int tokensOut / 1000000 * outputRate rates
           | None \<Rightarrow> of_int tokensIn / 1000000 * 0 + of_int tokensOut / 1000000 * 0))"

definition sampleOps :: "aggregatorOp list" where
  "sampleOps =
     [UsageOp MODEL_COSTS ''2023-11-14'' (Num 22) ''gpt-4o'' 10 5,
      RollupOp ''2023-11-14'' [''gpt-4o'']]"

section \<open>The tokenizer worker protocol\<close>

text \<open>
  The module state of the token counter in a browser: the worker handle, the readiness
  flag, the request counter and the two callback maps. Each call of \<open>countTextTokens\<close>
  with a non-empty text creates one promise and stores its \<open>resolve\<close> and \<open>reject\<close>
  callbacks under the request id, so a promise is named by its request id and each map is
  the list of ids it holds. \<open>promises\<close> records how each promise stands, \<open>posted\<close> the
  messages handed to a worker, and \<open>timers\<close> the retries (\<open>setTimeout\<close>) not yet
  run, each with the worker handle and text its closure captured.
\<close>

datatype promiseState = Pending | Resolved int | Rejected

record TokenizerState =
  worker :: "nat option"
  workerReady :: bool
  nextRequestId :: nat
  pendingRequests :: "nat list"
  errorCallbacks :: "nat list"
  promises :: "nat \<Rightarrow> promiseState option"
  workersCreated :: nat
  posted :: "(nat \<times> nat \<times> string) list"
  timers :: "(nat \<times> nat \<times> string) list"

definition initialTokenizer :: TokenizerState where
  "initialTokenizer =
     \<lparr>worker = None, workerReady = False, nextRequestId = 0, pendingRequests = [],
      errorCallbacks = [], promises = (\<lambda>requestId. None), workersCreated = 0, posted = [],
      timers = []\<rparr>"

text \<open>Calling \<open>resolve\<close> or \<open>reject\<close> settles a pending promise and is ignored otherwise.\<close>

definition settle :: "nat \<Rightarrow> promiseState \<Rightarrow> TokenizerState \<Rightarrow> TokenizerState" where
  "settle requestId outcome st =
     (if promises st requestId = Some Pending
      then st\<lparr>promises := (promises st)(requestId \<mapsto> outcome)\<rparr> else st)"

definition initTokenizerWorker :: "TokenizerState \<Rightarrow> nat \<times> TokenizerState" where
  "initTokenizerWorker st =
     (case worker st of
        None \<Rightarrow>
          (workersCreated st,
           st\<lparr>worker := Some (workersCreated st), workersCreated := Suc (workersCreated st)\<rparr>)
      | Some w \<Rightarrow> (w, st))"

text \<open>
  \<open>attemptPostMessage\<close> inside the promise of \<open>countTextTokens\<close>. \<open>tokenizerWorker\<close>
  is the handle the call obtained, never null, so the middle branch of the code cannot be
  taken. \<open>postThrows\<close> says whether \<open>postMessage\<close> throws.
\<close>

definition attemptPostMessage ::
  "nat \<Rightarrow> nat \<Rightarrow> string \<Rightarrow> bool \<Rightarrow> TokenizerState \<Rightarrow> TokenizerState" where
  "attemptPostMessage requestId tokenizerWorker txt postThrows st =
     (if workerReady st then
        (if postThrows then
           settle requestId Rejected
             (st\<lparr>pendingRequests := removeAll requestId (pendingRequests st),
                 errorCallbacks := removeAll requestId (errorCallbacks st)\<rparr>)
         else st\<lparr>posted := posted st @ [(tokenizerWorker, requestId, txt)]\<rparr>)
      else st\<lparr>timers := timers st @ [(requestId, tokenizerWorker, txt)]\<rparr>)"

text \<open>
  \<open>countTextTokens\<close> in a browser. An empty text returns 0 at once and touches nothing.
\<close>

definition countTextTokensCall :: "string \<Rightarrow> bool \<Rightarrow> TokenizerState \<Rightarrow> TokenizerState" where
  "countTextTokensCall txt postThrows st =
     (if txt = [] then st
      else
        let (tokenizerWorker, st1) = initTokenizerWorker st;
            requestId = nextRequestId st1;
            st2 = st1\<lparr>nextRequestId := Suc requestId,
                      promises := (promises st1)(requestId \<mapsto> Pending),
                      pendingRequests := pendingRequests st1 @ [requestId],
                      errorCallbacks := errorCallbacks st1 @ [requestId]\<rparr>
        in attemptPostMessage requestId tokenizerWorker txt postThrows st2)"

text \<open>
  A message from the worker: the readiness signal, or a response with its id, its count
  when that is a number, its error when that is truthy, and \<open>fallbackUsed\<close>.
\<close>

datatype workerMessage = WorkerReady | Response nat "int option" "string option" bool

definition onmessage :: "workerMessage \<Rightarrow> TokenizerState \<Rightarrow> TokenizerState" where
  "onmessage m st =
     (case m of
        WorkerReady \<Rightarrow> st\<lparr>workerReady := True\<rparr>
      | Response requestId count err fallbackUsed \<Rightarrow>
          if requestId \<in> set (pendingRequests st) \<and> requestId \<in> set (errorCallbacks st) then
            (let st1 =
                   (case err of
                      Some e \<Rightarrow>
                        (case count of
                           Some n \<Rightarrow> if fallbackUsed then settle requestId (Resolved n) st
                                     else settle requestId Rejected st
                         | None \<Rightarrow> settle requestId Rejected st)
                    | None \<Rightarrow>
                        (case count of
                           Some n \<Rightarrow> settle requestId (Resolved n) st
                         | None \<Rightarrow> settle requestId Rejected st))
             in st1\<lparr>pendingRequests := removeAll requestId (pendingRequests st1),
                    errorCallbacks := removeAll requestId (errorCallbacks st1)\<rparr>)
          else st)"

definition onerror :: "TokenizerState \<Rightarrow> TokenizerState" where
  "onerror st =
     (fold (\<lambda>requestId. settle requestId Rejected) (errorCallbacks st) (st\<lparr>workerReady := False\<rparr>))
       \<lparr>pendingRequests := [], errorCallbacks := [], worker := None\<rparr>"

definition terminateTokenizerWorker :: "TokenizerState \<Rightarrow> TokenizerState" where
  "terminateTokenizerWorker st =
     (case worker st of
        Some w \<Rightarrow>
          st\<lparr>worker := None, workerReady := False, pendingRequests := [], errorCallbacks := []\<rparr>
      | None \<Rightarrow> st)"

text \<open>The retry timer at position \<open>k\<close> runs its \<open>attemptPostMessage\<close>.\<close>

definition timerFires :: "nat \<Rightarrow> bool \<Rightarrow> TokenizerState \<Rightarrow> TokenizerState" where
  "timerFires k postThrows st =
     (if k < length (timers st) then
        (case timers st ! k of
           (requestId, tokenizerWorker, txt) \<Rightarrow>
             attemptPostMessage requestId tokenizerWorker txt postThrows
               (st\<lparr>timers := take k (timers st) @ drop (Suc k) (timers st)\<rparr>))
      else st)"

text \<open>
  What can happen to the module, in any order: a call, a message from a worker, a worker
  error, the teardown, a retry timer.
\<close>

datatype tokenizerEvent =
  CountTextTokens string bool
| Message workerMessage
| WorkerError
| Terminate
| TimerFires nat bool

fun tokenizerStep :: "tokenizerEvent \<Rightarrow> TokenizerState \<Rightarrow> TokenizerState" where
  "tokenizerStep (CountTextTokens txt postThrows) st = countTextTokensCall txt postThrows st"
| "tokenizerStep (Message m) st = onmessage m st"
| "tokenizerStep WorkerError st = onerror st"
| "tokenizerStep Terminate st = terminateTokenizerWorker st"
| "tokenizerStep (TimerFires k postThrows) st = timerFires k postThrows st"

definition tokenizerRun :: "tokenizerEvent list \<Rightarrow> TokenizerState \<Rightarrow> TokenizerState" where
  "tokenizerRun events st = fold tokenizerStep events st"

text \<open>
  A request is outstanding while its promise is pending. It is abandoned when moreover no
  callback and no retry timer of it is left and its id has been handed out.
\<close>

definition abandoned :: "nat \<Rightarrow> TokenizerState \<Rightarrow> bool" where
  "abandoned requestId st =
     (promises st requestId = Some Pending \<and>
      requestId \<notin> set (pendingRequests st) \<and>
      requestId \<notin> set (errorCallbacks st) \<and>
      requestId \<notin> set (map fst (timers st)) \<and>
      requestId < nextRequestId st)"

text \<open>
  A worker is created and signals readiness, a request is posted to it, and the teardown
  or a worker error comes before the answer.
\<close>

definition beforeTeardown :: "tokenizerEvent list" where
  "beforeTeardown =
     [CountTextTokens ''warm up'' False, Message WorkerReady, TimerFires 0 False,
      Message (Response 0 (Some 2) None False), CountTextTokens ''abcd'' False]"

section \<open>Day keys and hours\<close>

text \<open>
  The time value of \<open>new Date(v)\<close>: \<open>NaN\<close> beyond 8.64e15 milliseconds from the epoch,
  and \<open>v\<close> truncated towards zero otherwise.
\<close>

definition timeClip :: "rat \<Rightarrow> int option" where
  "timeClip v =
     (if \<bar>v\<bar> > 8640000000000000 then None
      else Some (if 0 \<le> v then \<lfloor>v\<rfloor> else \<lceil>v\<rceil>))"

text \<open>
  Year, month (1 to 12) and day of the month of a day number counted from 1970-01-01, in
  the proleptic Gregorian calendar that \<open>getUTCFullYear\<close>, \<open>getUTCMonth\<close> and
  \<open>getUTCDate\<close> use. The computation works in years that start on 1 March, in eras of
  400 years (146097 days).
\<close>

definition civilFromDays :: "int \<Rightarrow> int \<times> int \<times> int" where
  "civilFromDays days =
     (let z = days + 719468;
          era = z div 146097;
          doe = z mod 146097;
          yoe = (doe - doe div 1460 + doe div 36524 - doe div 146096) div 365;
          doy = doe - (365 * yoe + yoe div 4 - yoe div 100);
          mp = (5 * doy + 2) div 153;
          d = doy - (153 * mp + 2) div 5 + 1;
          m = (if mp < 10 then mp + 3 else mp - 9);
          y = yoe + era * 400
      in (if m \<le> 2 then y + 1 else y, m, d))"

text \<open>Decimal digits of a number, as \<open>String(n)\<close> writes an integer.\<close>

definition digitChar :: "int \<Rightarrow> char" where
  "digitChar n = ''0123456789'' ! nat n"

function digitsOf :: "int \<Rightarrow> string" where
  "digitsOf n =
     (if n < 10 then [digitChar n]
      else digitsOf (n div 10) @ [digitChar (n mod 10)])"
  by pat_completeness auto
termination
  by (relation "measure nat") auto

declare digitsOf.simps [simp del]

definition showInt :: "int \<Rightarrow> string" where
  "showInt i = (if i < 0 then CHR ''-'' # digitsOf (- i) else digitsOf i)"

definition padStart2 :: "string \<Rightarrow> string" where
  "padStart2 s = (if length s < 2 then replicate (2 - length s) CHR ''0'' @ s else s)"

text \<open>The conversion both helpers apply first: a value above 1e11 is taken as milliseconds.\<close>

definition toSeconds :: "rat \<Rightarrow> rat" where
  "toSeconds unixTime = (if unixTime > 100000000000 then of_int \<lfloor>unixTime / 1000\<rfloor> else unixTime)"

text \<open>
  \<open>getDayKey\<close> and \<open>getHourOfDay\<close>. The argument is whatever \<open>create_time\<close> holds;
  \<open>NaN\<close> stands for a value whose conversion to a number is \<open>NaN\<close>, for which the comparison
  with 1e11 is false and the date is invalid. On an invalid date every getter returns
  \<open>NaN\<close>, so the key reads "NaN-NaN-NaN" and the hour is \<open>NaN\<close>. Neither function has
  an operation that throws; they return in the sum type so that the \<open>try\<close> around
  their calls can be written as it stands.
\<close>

definition getDayKey :: "jsnum \<Rightarrow> error + string" where
  "getDayKey unixTime =
     (case unixTime of
        NaN \<Rightarrow> Inr ''NaN-NaN-NaN''
      | Num q \<Rightarrow>
          (case timeClip (toSeconds q * 1000) of
             None \<Rightarrow> Inr ''NaN-NaN-NaN''
           | Some tv \<Rightarrow>
               (case civilFromDays (tv div 86400000) of
                  (y, m, d) \<Rightarrow>
                    Inr (showInt y @ ''-'' @ padStart2 (showInt m) @ ''-'' @ padStart2 (showInt d)))))"

definition getHourOfDay :: "jsnum \<Rightarrow> error + jsnum" where
  "getHourOfDay unixTime =
     (case unixTime of
        NaN \<Rightarrow> Inr NaN
      | Num q \<Rightarrow>
          (case timeClip (toSeconds q * 1000) of
             None \<Rightarrow> Inr NaN
           | Some tv \<Rightarrow> Inr (Num (of_int ((tv mod 86400000) div 3600000)))))"

section \<open>The export format\<close>

text \<open>
  The fields of a parsed conversation that the code reads. A string field holds \<open>''''\<close>
  when the JSON value is missing or falsy, a \<open>bool\<close> field holds the truthiness of the
  value, and an \<open>option\<close> field is \<open>None\<close> when the value is missing or of another
  type than the one the code tests for. A message without \<open>content\<close> or \<open>metadata\<close>
  is one whose fields are all missing. \<open>search_result_groups\<close> and \<open>citations\<close>
  hold the text \<open>JSON.stringify\<close> gives for a truthy value and a non-empty array.
  \<open>create_time\<close> is \<open>None\<close> when null or missing, \<open>Some (Num t)\<close> for a JSON
  number and \<open>Some NaN\<close> for any other value whose conversion to a number is \<open>NaN\<close>,
  such as a non-numeric string or an object. Fields that two records share in the source
  carry a prefix in all but one of them.
\<close>

record PartObject =
  asset_pointer :: bool
  part_content_type :: "string option"
  part_width :: "int option"
  part_height :: "int option"
  part_generation :: bool
  part_dalle :: bool

datatype part = PartString string | PartObj PartObject | PartOther

record Thought =
  thought_content :: string
  summary :: string

record Content =
  content_type :: "string option"
  parts :: "part list option"
  content_text :: string
  thoughts :: "Thought list option"
  result :: string

record Metadata =
  meta_model_slug :: string
  reasoning_status :: "string option"
  about_model_message :: string
  search_result_groups :: "string option"
  citations :: "string option"
  async_task_id :: "string option"
  image_gen_async :: bool
  generation :: bool

record Message =
  author_role :: "string option"
  author_name :: "string option"
  content :: Content
  metadata :: Metadata
  end_turn :: bool
  channel :: "string option"

record Node =
  message :: "Message option"
  node_model_slug :: string

record DirectMessage =
  dm_metadata_model_slug :: string
  dm_model_slug :: string
  dm_author_name :: string
  dm_name :: string
  dm_image_gen_async :: bool

record Conversation =
  create_time :: "jsnum option"
  mapping :: "(string \<times> Node) list option"
  messages :: "DirectMessage list option"
  default_model_slug :: "string option"

section \<open>Flattening a conversation\<close>

text \<open>
  The text tokenizer is js-tiktoken behind the worker. For a non-empty text it is a
  parameter: the count the promise of \<open>countTextTokens\<close> resolves with, or \<open>None\<close>
  when the promise rejects. A promise that never settles is outside this part of the model.
\<close>

type_synonym tokenizer = "string \<Rightarrow> int option"

definition countTextTokens :: "tokenizer \<Rightarrow> string \<Rightarrow> int option" where
  "countTextTokens tok s = (if s = [] then Some 0 else tok s)"

definition isImagePart :: "part \<Rightarrow> bool" where
  "isImagePart p =
     (case p of PartObj obj \<Rightarrow> part_content_type obj = Some ''image_asset_pointer'' | _ \<Rightarrow> False)"

text \<open>\<open>part.width || 1024\<close> and \<open>part.height || 1024\<close>, then the estimate at "high".\<close>

definition partImageTokens :: "PartObject \<Rightarrow> int" where
  "partImageTokens obj =
     (let w = (case part_width obj of Some n \<Rightarrow> if n = 0 then 1024 else n | None \<Rightarrow> 1024);
          h = (case part_height obj of Some n \<Rightarrow> if n = 0 then 1024 else n | None \<Rightarrow> 1024)
      in countImageTokens w h ''high'')"

text \<open>The loop over the parts of a user or system message; \<open>acc\<close> is \<open>contentTokens\<close>.\<close>

fun userParts :: "tokenizer \<Rightarrow> part list \<Rightarrow> int \<Rightarrow> int option" where
  "userParts tok [] acc = Some acc"
| "userParts tok (PartString s # ps) acc =
     (case countTextTokens tok s of
        None \<Rightarrow> None | Some n \<Rightarrow> userParts tok ps (acc + n))"
| "userParts tok (PartObj obj # ps) acc =
     (if asset_pointer obj \<or> part_content_type obj = Some ''image_asset_pointer''
      then userParts tok ps (acc + partImageTokens obj)
      else userParts tok ps (acc + 20))"
| "userParts tok (PartOther # ps) acc = userParts tok ps acc"

definition userSystemTokens :: "tokenizer \<Rightarrow> Message \<Rightarrow> int option" where
  "userSystemTokens tok msg =
     (case (case parts (content msg) of
              Some ps \<Rightarrow> userParts tok ps 0
            | None \<Rightarrow>
                if content_text (content msg) \<noteq> []
                then countTextTokens tok (content_text (content msg)) else Some 0) of
        None \<Rightarrow> None
      | Some n \<Rightarrow>
          if about_model_message (metadata msg) \<noteq> [] then
            (case countTextTokens tok (about_model_message (metadata msg)) of
               None \<Rightarrow> None | Some k \<Rightarrow> Some (n + k))
          else Some n)"

text \<open>
  The tool block up to the image detection. The search result is tokenized inside a
  \<open>try\<close>: a rejection leaves \<open>searchTokens\<close> at 0.
\<close>

definition toolSearchTokens :: "tokenizer \<Rightarrow> Message \<Rightarrow> int" where
  "toolSearchTokens tok msg =
     (case search_result_groups (metadata msg) of
        None \<Rightarrow> 0
      | Some searchResultsText \<Rightarrow>
          (case countTextTokens tok searchResultsText of None \<Rightarrow> 0 | Some n \<Rightarrow> n))"

fun toolParts :: "tokenizer \<Rightarrow> part list \<Rightarrow> int \<Rightarrow> int option" where
  "toolParts tok [] acc = Some acc"
| "toolParts tok (PartString s # ps) acc =
     (case countTextTokens tok s of
        None \<Rightarrow> None | Some n \<Rightarrow> toolParts tok ps (acc + n))"
| "toolParts tok (p # ps) acc = toolParts tok ps acc"

definition partsArray :: "Message \<Rightarrow> part list" where
  "partsArray msg = (case parts (content msg) of Some ps \<Rightarrow> ps | None \<Rightarrow> [])"

text \<open>
  The usage updates of the image detection of a tool message, in the order the code makes
  them: DALL-E by the author name, then the asynchronous image generation.
\<close>

definition imageGenUpdates :: "Message \<Rightarrow> usageUpdate list" where
  "imageGenUpdates msg =
     (let numImages = int (length (filter isImagePart (partsArray msg)));
          hasAsyncImageGen =
            (image_gen_async (metadata msg) \<or> list_ex isImagePart (partsArray msg) \<or>
             generation (metadata msg) \<or>
             list_ex (\<lambda>p. case p of PartObj obj \<Rightarrow> part_generation obj | _ \<Rightarrow> False)
               (partsArray msg) \<or>
             list_ex (\<lambda>p. case p of PartObj obj \<Rightarrow> part_dalle obj | _ \<Rightarrow> False)
               (partsArray msg))
      in (if author_name msg = Some ''dalle.text2im'' \<and> numImages > 0
          then [(''dalle-3'', 0, numImages)] else []) @
         (if hasAsyncImageGen \<and> numImages > 0
          then [(''gpt-image-1'', 0, numImages)] else []))"

text \<open>The assistant block, which tool messages pass through as well.\<close>

fun thoughtTokens :: "tokenizer \<Rightarrow> Thought list \<Rightarrow> int \<Rightarrow> int option" where
  "thoughtTokens tok [] acc = Some acc"
| "thoughtTokens tok (t # ts) acc =
     (case (if thought_content t \<noteq> [] then countTextTokens tok (thought_content t)
            else Some 0) of
        None \<Rightarrow> None
      | Some a \<Rightarrow>
          (case (if summary t \<noteq> [] then countTextTokens tok (summary t) else Some 0) of
             None \<Rightarrow> None
           | Some b \<Rightarrow> thoughtTokens tok ts (acc + a + b)))"

text \<open>The loop over the parts of an assistant or tool message, on (content, output) tokens.\<close>

fun assistantParts :: "tokenizer \<Rightarrow> part list \<Rightarrow> int \<times> int \<Rightarrow> (int \<times> int) option" where
  "assistantParts tok [] acc = Some acc"
| "assistantParts tok (PartString s # ps) (c, out) =
     (case countTextTokens tok s of
        None \<Rightarrow> None | Some n \<Rightarrow> assistantParts tok ps (c, out + n))"
| "assistantParts tok (PartObj obj # ps) (c, out) =
     (if asset_pointer obj \<or> part_content_type obj = Some ''image_asset_pointer''
      then assistantParts tok ps (c + partImageTokens obj, out)
      else assistantParts tok ps (c, out + 20))"
| "assistantParts tok (PartOther # ps) acc = assistantParts tok ps acc"

text \<open>\<open>String.prototype.includes\<close>.\<close>

fun includesStr :: "string \<Rightarrow> string \<Rightarrow> bool" where
  "includesStr [] sub = (sub = [])"
| "includesStr (c # cs) sub = (take (length sub) (c # cs) = sub \<or> includesStr cs sub)"

text \<open>
  The block from the content tokens and the model slug found so far to the content tokens,
  the output tokens and the model slug of the entry. The citations are tokenized inside a
  \<open>try\<close>: a rejection adds nothing.
\<close>

definition assistantTokens ::
  "tokenizer \<Rightarrow> Message \<Rightarrow> int \<Rightarrow> string \<Rightarrow> (int \<times> int \<times> string) option" where
  "assistantTokens tok msg contentTokens0 modelSlug0 =
     (let ctype = content_type (content msg); txt = content_text (content msg)
      in
      case (if ctype = Some ''thoughts'' then
              (case thoughts (content msg) of
                 Some ts \<Rightarrow> thoughtTokens tok ts 0 | None \<Rightarrow> Some 0)
            else Some 0) of
        None \<Rightarrow> None
      | Some out1 \<Rightarrow>
      case (if ctype = Some ''code'' \<and> txt \<noteq> []
            then map_option (\<lambda>n. out1 + n) (countTextTokens tok txt) else Some out1) of
        None \<Rightarrow> None
      | Some out2 \<Rightarrow>
      case (if ctype = Some ''execution_output'' \<and> txt \<noteq> []
            then map_option (\<lambda>n. contentTokens0 + n) (countTextTokens tok txt)
            else Some contentTokens0) of
        None \<Rightarrow> None
      | Some c1 \<Rightarrow>
      case (if ctype = Some ''tether_quote'' \<and> txt \<noteq> []
            then map_option (\<lambda>n. c1 + n) (countTextTokens tok txt)
            else if ctype = Some ''tether_browsing_display'' \<and> result (content msg) \<noteq> []
            then map_option (\<lambda>n. c1 + n) (countTextTokens tok (result (content msg)))
            else Some c1) of
        None \<Rightarrow> None
      | Some c2 \<Rightarrow>
      let c3 = (case citations (metadata msg) of
                  None \<Rightarrow> c2
                | Some citationsText \<Rightarrow>
                    (case countTextTokens tok citationsText of
                       None \<Rightarrow> c2 | Some n \<Rightarrow> c2 + n));
          modelSlug =
            (case citations (metadata msg) of
               None \<Rightarrow> modelSlug0
             | Some citationsText \<Rightarrow>
                 (case async_task_id (metadata msg) of
                    None \<Rightarrow> modelSlug0
                  | Some taskId \<Rightarrow>
                      if includesStr taskId ''deepresch'' then ''research'' else modelSlug0))
      in
      case (case parts (content msg) of
              Some ps \<Rightarrow> assistantParts tok ps (c3, out2) | None \<Rightarrow> Some (c3, out2)) of
        None \<Rightarrow> None
      | Some (c4, out3) \<Rightarrow>
      case (if txt \<noteq> [] then map_option (\<lambda>n. out3 + n) (countTextTokens tok txt)
            else Some out3) of
        None \<Rightarrow> None
      | Some out4 \<Rightarrow> Some (c4, out4, modelSlug))"

definition messageRole :: "Message \<Rightarrow> string" where
  "messageRole msg = (case author_role msg of None \<Rightarrow> ''unknown'' | Some r \<Rightarrow> r)"

text \<open>\<open>msg.metadata?.model_slug || node.metadata?.model_slug || "unknown_model"\<close>.\<close>

definition nodeModelSlug :: "Node \<Rightarrow> Message \<Rightarrow> string" where
  "nodeModelSlug node msg =
     (if meta_model_slug (metadata msg) \<noteq> [] then meta_model_slug (metadata msg)
      else if node_model_slug node \<noteq> [] then node_model_slug node
      else ''unknown_model'')"

text \<open>
  A node's message in three steps, in the order of the code: the tokens counted before the
  image detection (content and search tokens), the usage updates of the image detection,
  and the tokens counted after it, which complete the flat entry.
\<close>

definition preImageTokens :: "tokenizer \<Rightarrow> Message \<Rightarrow> (int \<times> int) option" where
  "preImageTokens tok msg =
     (case (if messageRole msg = ''user'' \<or> messageRole msg = ''system''
            then userSystemTokens tok msg else Some 0) of
        None \<Rightarrow> None
      | Some c \<Rightarrow>
          if messageRole msg = ''tool'' then
            (case (case parts (content msg) of
                     Some ps \<Rightarrow> toolParts tok ps c | None \<Rightarrow> Some c) of
               None \<Rightarrow> None
             | Some c' \<Rightarrow> Some (c', toolSearchTokens tok msg))
          else Some (c, 0))"

definition nodeImageUpdates :: "Message \<Rightarrow> usageUpdate list" where
  "nodeImageUpdates msg = (if messageRole msg = ''tool'' then imageGenUpdates msg else [])"

definition postImageEntry ::
  "tokenizer \<Rightarrow> Node \<Rightarrow> Message \<Rightarrow> int \<times> int \<Rightarrow> FlatMsg option" where
  "postImageEntry tok node msg pre =
     (case (if messageRole msg = ''assistant'' \<or> messageRole msg = ''tool''
            then assistantTokens tok msg (fst pre) (nodeModelSlug node msg)
            else Some (fst pre, 0, nodeModelSlug node msg)) of
        None \<Rightarrow> None
      | Some (c, out, modelSlug) \<Rightarrow>
          Some \<lparr>role = Some (messageRole msg), contentTokens = Some c, outputTokens = Some out,
                searchTokens = Some (snd pre), model_slug = Some modelSlug,
                isReasoningMessage =
                  (reasoning_status (metadata msg) = Some ''is_reasoning'' \<or>
                   content_type (content msg) = Some ''thoughts''),
                isReasoningRecap =
                  (content_type (content msg) = Some ''reasoning_recap'' \<or>
                   reasoning_status (metadata msg) = Some ''reasoning_ended''),
                isFinalMessage = (end_turn msg \<or> channel msg = Some ''final'')\<rparr>)"

text \<open>
  One iteration of the loop of \<open>processMappedMessages\<close>: nothing for a node without a
  message, otherwise the models the image detection adds and the entry pushed.
\<close>

definition processNode ::
  "tokenizer \<Rightarrow> costs \<Rightarrow> string \<Rightarrow> jsnum \<Rightarrow> Node \<Rightarrow> Aggregator
     \<Rightarrow> (error + (string list \<times> FlatMsg) option) \<times> Aggregator" where
  "processNode tok modelCosts dayKey hour node aggregator =
     (case message node of
        None \<Rightarrow> (Inr None, aggregator)
      | Some msg \<Rightarrow>
          (case preImageTokens tok msg of
             None \<Rightarrow> (Inl TokenizerRejected, aggregator)
           | Some pre \<Rightarrow>
               (case commitAll modelCosts dayKey hour (nodeImageUpdates msg) aggregator of
                  (Inl e, a) \<Rightarrow> (Inl e, a)
                | (Inr u, a) \<Rightarrow>
                    (case postImageEntry tok node msg pre of
                       None \<Rightarrow> (Inl TokenizerRejected, a)
                     | Some entry \<Rightarrow>
                         (Inr (Some (map fst (nodeImageUpdates msg), entry)), a)))))"

fun mappedLoop ::
  "tokenizer \<Rightarrow> costs \<Rightarrow> string \<Rightarrow> jsnum \<Rightarrow> (string \<times> Node) list
     \<Rightarrow> FlatMsg list \<times> string list \<Rightarrow> Aggregator
     \<Rightarrow> (error + FlatMsg list \<times> string list) \<times> Aggregator" where
  "mappedLoop tok modelCosts dayKey hour [] acc aggregator = (Inr acc, aggregator)"
| "mappedLoop tok modelCosts dayKey hour ((nodeKey, node) # rest) acc aggregator =
     (case processNode tok modelCosts dayKey hour node aggregator of
        (Inl e, a) \<Rightarrow> (Inl e, a)
      | (Inr None, a) \<Rightarrow> mappedLoop tok modelCosts dayKey hour rest acc a
      | (Inr (Some (ms, entry)), a) \<Rightarrow>
          mappedLoop tok modelCosts dayKey hour rest
            (fst acc @ [entry], fold setAdd ms (snd acc)) a)"

definition processMappedMessages ::
  "tokenizer \<Rightarrow> costs \<Rightarrow> (string \<times> Node) list \<Rightarrow> string \<Rightarrow> jsnum \<Rightarrow> Aggregator
     \<Rightarrow> (error + string list) \<times> Aggregator" where
  "processMappedMessages tok modelCosts nodes dayKey hour aggregator =
     (case mappedLoop tok modelCosts dayKey hour nodes ([], []) aggregator of
        (Inl e, a) \<Rightarrow> (Inl e, a)
      | (Inr (nodeMessages, used), a) \<Rightarrow>
          (case processFlatMessagesWithTokenCounts modelCosts nodeMessages dayKey hour a of
             (Inl e, a') \<Rightarrow> (Inl e, a')
           | (Inr usedModelsInFlat, a') \<Rightarrow> (Inr (fold setAdd usedModelsInFlat used), a')))"

section \<open>Processing conversations\<close>

text \<open>
  \<open>processConversation\<close>. \<open>now\<close> is what \<open>Date.now()\<close> returns when the call runs,
  in milliseconds; it is read only when \<open>create_time\<close> is null or missing. The \<open>try\<close>
  leaves \<open>dayKey\<close> at "unknown-day" and \<open>hour\<close> at 0, or at what was assigned before
  the exception, when one of the two helpers throws.
\<close>

definition conversationTimestamp :: "int \<Rightarrow> Conversation \<Rightarrow> jsnum" where
  "conversationTimestamp now conversation =
     (case create_time conversation of
        None \<Rightarrow> Num (of_int now / 1000)
      | Some t \<Rightarrow> t)"

definition dayKeyAndHour :: "jsnum \<Rightarrow> string \<times> jsnum" where
  "dayKeyAndHour ts =
     (case getDayKey ts of
        Inl e \<Rightarrow> (''unknown-day'', Num 0)
      | Inr dayKey \<Rightarrow>
          (case getHourOfDay ts of
             Inl e \<Rightarrow> (dayKey, Num 0)
           | Inr hour \<Rightarrow> (dayKey, hour)))"

definition ensureDayBucket :: "string \<Rightarrow> Aggregator \<Rightarrow> Aggregator" where
  "ensureDayBucket dayKey aggregator =
     (if dayKey \<noteq> ''unknown-day'' \<and> map_of (usageByDay aggregator) dayKey = None
      then aggregator\<lparr>usageByDay := AList.update dayKey createDayBucket (usageByDay aggregator)\<rparr>
      else aggregator)"

definition processConversation ::
  "tokenizer \<Rightarrow> costs \<Rightarrow> int \<Rightarrow> Conversation \<Rightarrow> Aggregator
     \<Rightarrow> (error + string list) \<times> Aggregator" where
  "processConversation tok modelCosts now conversation aggregator =
     (case dayKeyAndHour (conversationTimestamp now conversation) of
        (dayKey, hour) \<Rightarrow>
          (case (case mapping conversation of
                   Some nodes \<Rightarrow>
                     (case processMappedMessages tok modelCosts nodes dayKey hour
                             (ensureDayBucket dayKey aggregator) of
                        (Inl e, a) \<Rightarrow> (Inl e, a)
                      | (Inr used, a) \<Rightarrow> (Inr (fold setAdd used []), a))
                 | None \<Rightarrow> (Inr [], ensureDayBucket dayKey aggregator)) of
             (Inl e, a) \<Rightarrow> (Inl e, a)
           | (Inr modelsUsedInConversation, a) \<Rightarrow>
               (case conversationRollup dayKey modelsUsedInConversation a of
                  (Inl e, a') \<Rightarrow> (Inl e, a')
                | (Inr u, a') \<Rightarrow> (Inr modelsUsedInConversation, a'))))"

text \<open>
  \<open>scanForModelSlugs\<close>: the slugs found, and \<open>MODEL_COSTS\<close> with a zero-rate entry
  added for each found slug it lacks, other than "unknown_model".
\<close>

definition addIfTruthy :: "string \<Rightarrow> string list \<Rightarrow> string list" where
  "addIfTruthy slug found = (if slug \<noteq> [] then setAdd slug found else found)"

definition scanNode :: "string \<times> Node \<Rightarrow> string list \<Rightarrow> string list" where
  "scanNode keyNode found =
     (let node = snd keyNode;
          found1 = (case message node of
                      Some msg \<Rightarrow> addIfTruthy (meta_model_slug (metadata msg)) found
                    | None \<Rightarrow> found);
          found2 = addIfTruthy (node_model_slug node) found1;
          found3 = (case message node of
                      Some msg \<Rightarrow>
                        if author_name msg = Some ''dalle.text2im'' then setAdd ''dalle-3'' found2
                        else found2
                    | None \<Rightarrow> found2)
      in (case message node of
            Some msg \<Rightarrow>
              if image_gen_async (metadata msg) then setAdd ''gpt-image-1'' found3 else found3
          | None \<Rightarrow> found3))"

definition scanDirectMessage :: "DirectMessage \<Rightarrow> string list \<Rightarrow> string list" where
  "scanDirectMessage msg found =
     (let found1 = addIfTruthy (dm_metadata_model_slug msg) found;
          found2 = addIfTruthy (dm_model_slug msg) found1;
          authorName = (if dm_author_name msg \<noteq> [] then dm_author_name msg else dm_name msg);
          found3 = (if authorName = ''dalle.text2im'' then setAdd ''dalle-3'' found2 else found2)
      in if dm_image_gen_async msg then setAdd ''gpt-image-1'' found3 else found3)"

definition scanConversation :: "Conversation option \<Rightarrow> string list \<Rightarrow> string list" where
  "scanConversation entry found =
     (case entry of
        None \<Rightarrow> found
      | Some conversation \<Rightarrow>
          (let found1 = (case mapping conversation of
                           Some nodes \<Rightarrow> fold scanNode nodes found | None \<Rightarrow> found);
               found2 = (case messages conversation of
                           Some ms \<Rightarrow> fold scanDirectMessage ms found1 | None \<Rightarrow> found1)
           in (case default_model_slug conversation of
                 Some defSlug \<Rightarrow> setAdd defSlug found2 | None \<Rightarrow> found2)))"

definition addPlaceholder :: "string \<Rightarrow> costs \<Rightarrow> costs" where
  "addPlaceholder m modelCosts = AList.update m \<lparr>inputRate = 0, outputRate = 0\<rparr> modelCosts"

definition scanForModelSlugs ::
  "Conversation option list \<Rightarrow> nat option \<Rightarrow> costs \<Rightarrow> string list \<times> costs" where
  "scanForModelSlugs data maxScan modelCosts =
     (let scanCount =
            (case maxScan of
               None \<Rightarrow> length data
             | Some n \<Rightarrow> if n = 0 then length data else min (length data) n);
          foundModels =
            fold scanConversation (take scanCount data)
              [''dalle-2'', ''dalle-3'', ''gpt-image-1''];
          missing =
            filter (\<lambda>m. map_of modelCosts m = None \<and> m \<noteq> ''unknown_model'') foundModels
      in (foundModels, fold addPlaceholder missing modelCosts))"

text \<open>
  \<open>processConversations\<close>. An entry of the array that is not an object is \<open>None\<close>.
  \<open>clock i\<close> is the reading of \<open>Date.now()\<close> while entry \<open>i\<close> is processed. The
  result is the aggregator, or the exception that ends the run, and \<open>MODEL_COSTS\<close> as
  the scan leaves it.
\<close>

text \<open>The smallest and largest \<open>create_time\<close> among the entries where it is a number.\<close>

fun timestampRange :: "Conversation option list \<Rightarrow> (rat \<times> rat) option \<Rightarrow> (rat \<times> rat) option" where
  "timestampRange [] acc = acc"
| "timestampRange (entry # rest) acc =
     (case entry of
        Some conversation \<Rightarrow>
          (case create_time conversation of
             Some (Num t) \<Rightarrow>
               timestampRange rest
                 (case acc of
                    None \<Rightarrow> Some (t, t)
                  | Some (lo, hi) \<Rightarrow> Some (min lo t, max hi t))
           | _ \<Rightarrow> timestampRange rest acc)
      | None \<Rightarrow> timestampRange rest acc)"

fun conversationsLoop ::
  "tokenizer \<Rightarrow> costs \<Rightarrow> (nat \<Rightarrow> int) \<Rightarrow> nat \<Rightarrow> Conversation option list \<Rightarrow> Aggregator
     \<Rightarrow> (error + unit) \<times> Aggregator" where
  "conversationsLoop tok modelCosts clock i [] aggregator = (Inr (), aggregator)"
| "conversationsLoop tok modelCosts clock i (entry # rest) aggregator =
     (case entry of
        None \<Rightarrow> conversationsLoop tok modelCosts clock (Suc i) rest aggregator
      | Some conversation \<Rightarrow>
          (case processConversation tok modelCosts (clock i) conversation aggregator of
             (Inl e, a) \<Rightarrow> (Inl e, a)
           | (Inr modelsInThisConversation, a) \<Rightarrow>
               conversationsLoop tok modelCosts clock (Suc i) rest
                 (a\<lparr>allModelSlugs := fold setAdd modelsInThisConversation (allModelSlugs a)\<rparr>)))"

definition processConversations ::
  "tokenizer \<Rightarrow> (nat \<Rightarrow> int) \<Rightarrow> costs \<Rightarrow> Conversation option list
     \<Rightarrow> (error + Aggregator) \<times> costs" where
  "processConversations tok clock modelCosts0 data =
     (let modelCosts = snd (scanForModelSlugs data None modelCosts0);
          range = timestampRange data None;
          dates =
            (case range of
               None \<Rightarrow> Inr (None, None)
             | Some (minTimestamp, maxTimestamp) \<Rightarrow>
                 (case getDayKey (Num minTimestamp) of
                    Inl e \<Rightarrow> Inl e
                  | Inr s \<Rightarrow>
                      (case getDayKey (Num maxTimestamp) of
                         Inl e \<Rightarrow> Inl e
                       | Inr e \<Rightarrow> Inr (Some s, Some e))))
      in case dates of
           Inl e \<Rightarrow> (Inl e, modelCosts)
         | Inr (s, e) \<Rightarrow>
             (case conversationsLoop tok modelCosts clock 0 data
                     (emptyAggregator\<lparr>startDate := s, endDate := e\<rparr>) of
                (Inl err, a) \<Rightarrow> (Inl err, modelCosts)
              | (Inr u, a) \<Rightarrow>
                  (Inr (a\<lparr>totalCostAllModels :=
                           Some (sum_list (map (\<lambda>(dayKey, d). cost (totalB d)) (usageByDay a)))\<rparr>),
                   modelCosts)))"

section \<open>What a conversation contributes\<close>

text \<open>
  The flat entries and the image models of a node list, without the aggregator: \<open>None\<close>
  when a tokenization that is not inside a \<open>try\<close> rejects.
\<close>

fun flattenNodes ::
  "tokenizer \<Rightarrow> (string \<times> Node) list \<Rightarrow> FlatMsg list \<times> string list
     \<Rightarrow> (FlatMsg list \<times> string list) option" where
  "flattenNodes tok [] acc = Some acc"
| "flattenNodes tok ((nodeKey, node) # rest) acc =
     (case message node of
        None \<Rightarrow> flattenNodes tok rest acc
      | Some msg \<Rightarrow>
          (case preImageTokens tok msg of
             None \<Rightarrow> None
           | Some pre \<Rightarrow>
               (case postImageEntry tok node msg pre of
                  None \<Rightarrow> None
                | Some entry \<Rightarrow>
                    flattenNodes tok rest
                      (fst acc @ [entry],
                       fold setAdd (map fst (nodeImageUpdates msg)) (snd acc)))))"

text \<open>
  The set of models a conversation is found to use: "dalle-3" and "gpt-image-1" for tool
  messages with generated images, and the slug of every assistant entry that is not a
  reasoning recap and whose slug is not "unknown_model", final or not.
\<close>

definition discoveredModels :: "tokenizer \<Rightarrow> Conversation \<Rightarrow> string list" where
  "discoveredModels tok conversation =
     (case mapping conversation of
        None \<Rightarrow> []
      | Some nodes \<Rightarrow>
          (case flattenNodes tok nodes ([], []) of
             None \<Rightarrow> []
           | Some (entries, imageModels) \<Rightarrow>
               fold setAdd
                 (fold setAdd (modelsUsed (fst (flatRun entries initialFlatState))) imageModels)
                 []))"

definition conversationDayKey :: "int \<Rightarrow> Conversation \<Rightarrow> string" where
  "conversationDayKey now conversation =
     fst (dayKeyAndHour (conversationTimestamp now conversation))"

text \<open>
  The conversations of the input array, from position \<open>i\<close> on, that fall on a day key.
\<close>

fun conversationsOn ::
  "(nat \<Rightarrow> int) \<Rightarrow> string \<Rightarrow> nat \<Rightarrow> Conversation option list \<Rightarrow> Conversation list" where
  "conversationsOn clock dayKey i [] = []"
| "conversationsOn clock dayKey i (None # rest) = conversationsOn clock dayKey (Suc i) rest"
| "conversationsOn clock dayKey i (Some conversation # rest) =
     (if conversationDayKey (clock i) conversation = dayKey then [conversation] else []) @
     conversationsOn clock dayKey (Suc i) rest"

definition hours24 :: "BucketWithHours \<Rightarrow> bool" where
  "hours24 b = (length (hours b) = 24)"

definition hasCreateTime :: "Conversation option \<Rightarrow> bool" where
  "hasCreateTime entry =
     (case entry of None \<Rightarrow> True | Some conversation \<Rightarrow> create_time conversation \<noteq> None)"

definition resultDayKeys :: "error + Aggregator \<Rightarrow> string list option" where
  "resultDayKeys r = (case r of Inl e \<Rightarrow> None | Inr a \<Rightarrow> Some (map fst (usageByDay a)))"

text \<open>
  Sample conversations: one assistant message, final or not, with a given slug, or with
  no slug when that is empty.
\<close>

definition emptyContent :: Content where
  "emptyContent =
     \<lparr>content_type = None, parts = None, content_text = [], thoughts = None, result = []\<rparr>"

definition emptyMetadata :: Metadata where
  "emptyMetadata =
     \<lparr>meta_model_slug = [], reasoning_status = None, about_model_message = [],
      search_result_groups = None, citations = None, async_task_id = None,
      image_gen_async = False, generation = False\<rparr>"

definition assistantNode :: "string \<Rightarrow> string \<Rightarrow> bool \<Rightarrow> string \<times> Node" where
  "assistantNode slug reply final =
     (''node-1'',
      \<lparr>message =
         Some \<lparr>author_role = Some ''assistant'', author_name = None,
               content = emptyContent\<lparr>content_type := Some ''text'',
                                          parts := Some [PartString reply]\<rparr>,
               metadata = emptyMetadata\<lparr>meta_model_slug := slug\<rparr>,
               end_turn = final, channel = None\<rparr>,
       node_model_slug = []\<rparr>)"

definition sampleConversation :: "jsnum option \<Rightarrow> string \<Rightarrow> bool \<Rightarrow> Conversation" where
  "sampleConversation created slug final =
     \<lparr>create_time = created, mapping = Some [assistantNode slug ''hello there'' final],
      messages = None, default_model_slug = None\<rparr>"

text \<open>A tokenizer for the samples: one token per four characters, rounded up.\<close>

definition sampleTokenizer :: tokenizer where
  "sampleTokenizer s = Some ((int (length s) + 3) div 4)"

text \<open>Conversation count and message count of a day's total in a result.\<close>

definition dayCounts :: "error + Aggregator \<Rightarrow> string \<Rightarrow> (nat \<times> nat) option" where
  "dayCounts r dayKey =
     (case r of
        Inl e \<Rightarrow> None
      | Inr a \<Rightarrow>
          Some (conversation_count (dayTotal a dayKey), message_count (dayTotal a dayKey)))"

definition sampleData :: "Conversation option list" where
  "sampleData =
     [Some (sampleConversation (Some (Num 1700000000)) ''gpt-4o'' True),
      Some (sampleConversation (Some (Num 1700000100)) ''gpt-4o'' False),
      None,
      Some (sampleConversation (Some (Num 1700000200)) [] True),
      Some (sampleConversation (Some (Num 1700100000)) ''o3'' True)]"

text \<open>A tokenizer none of whose promises rejects.\<close>

definition resolves :: "tokenizer \<Rightarrow> bool" where
  "resolves tok = (\<forall>s. tok s \<noteq> None)"

definition dayExists :: "string \<Rightarrow> Aggregator \<Rightarrow> bool" where
  "dayExists dk a = (map_of (usageByDay a) dk \<noteq> None)"

definition undatedConversation :: Conversation where
  "undatedConversation = sampleConversation None ''gpt-4o'' True"

section \<open>Properties of the image token estimator\<close>

lemma toLowerCase_low: "toLowerCase ''low'' = ''low''"
  by (simp add: toLowerCase_def lowerChar_def)

lemma toLowerCase_high: "toLowerCase ''high'' \<noteq> ''low''"
  by (simp add: toLowerCase_def lowerChar_def)

lemma countImageTokens_high_scaled:
  assumes "0 \<le> width" "0 \<le> height"
  shows "countImageTokens width height ''high'' = highDetailTokens width height"
proof (cases "width > 2048 \<or> height > 2048")
  case False
  then have "\<not> max width height > 2048" by auto
  then show ?thesis using False
    by (simp add: countImageTokens_def highDetailTokens_def scaledProportionally_def
        toLowerCase_high)
next
  case big: True
  then have mx: "max width height > 2048" by auto
  show ?thesis
  proof (cases "height = 0")
    case True
    then have "width > 2048" using big by simp
    then show ?thesis using True big
      by (simp add: countImageTokens_def highDetailTokens_def scaledProportionally_def
          toLowerCase_high max_def)
  next
    case hnz: False
    then have hpos: "0 < height" using assms by simp
    show ?thesis
    proof (cases "height < width")
      case True
      then have wpos: "0 < width" using hpos by simp
      have ar: "(of_int width / of_int height :: rat) > 1"
        using True hpos by simp
      have e1: "(2048 :: rat) / (of_int width / of_int height)
                = of_int height * (2048 / of_int width)"
        using wpos hpos by (simp add: field_simps)
      have e2: "\<lfloor>(of_int width :: rat) * (2048 / of_int width)\<rfloor> = 2048"
        using wpos by simp
      have m: "max width height = width" using True by simp
      show ?thesis using big hnz ar mx
        by (simp add: countImageTokens_def highDetailTokens_def scaledProportionally_def
            toLowerCase_high Let_def e1 e2 m mult.commute)
    next
      case False
      then have le: "width \<le> height" by simp
      have ar: "\<not> (of_int width / of_int height :: rat) > 1"
        using le hpos by (simp add: field_simps)
      have e1: "(2048 :: rat) * (of_int width / of_int height)
                = of_int width * (2048 / of_int height)"
        by simp
      have e2: "\<lfloor>(of_int height :: rat) * (2048 / of_int height)\<rfloor> = 2048"
        using hpos by simp
      have m: "max width height = height" using le by simp
      show ?thesis using big hnz ar mx
        by (simp add: countImageTokens_def highDetailTokens_def scaledProportionally_def
            toLowerCase_high Let_def e1 e2 m mult.commute)
    qed
  qed
qed

text \<open>
  Claim C5. \<open>countImageTokens\<close> is a function of its arguments alone (it reads and writes
  no state). With detail "low" it returns 85 for all dimensions. With detail "high", for
  all non-negative dimensions, it returns 85 + 170 * ceil(w/512) * ceil(h/512) where (w, h)
  are the dimensions after the proportional, floored scaling that brings the larger side
  down to 2048 when it exceeds 2048. The four values of the specification follow.
\<close>

theorem countImageTokens_formula:
  "countImageTokens width height ''low'' = 85 \<and>
   (0 \<le> width \<and> 0 \<le> height \<longrightarrow>
      countImageTokens width height ''high'' = highDetailTokens width height \<and>
      (max width height > 2048 \<longrightarrow> max (fst (scaledProportionally width height))
                                         (snd (scaledProportionally width height)) = 2048)) \<and>
   countImageTokens 1024 1024 ''high'' = 765 \<and>
   countImageTokens 512 512 ''high'' = 255 \<and>
   countImageTokens 100 100 ''low'' = 85 \<and>
   countImageTokens 4096 1024 ''high'' = 765 \<and>
   scaledProportionally 4096 1024 = (2048, 512)"
proof -
  have low: "countImageTokens w h ''low'' = 85" for w h
    by (simp add: countImageTokens_def toLowerCase_low)
  have larger: "max (fst (scaledProportionally width height))
                    (snd (scaledProportionally width height)) = 2048"
    if "0 \<le> width" "0 \<le> height" "max width height > 2048"
  proof (cases "height \<le> width")
    case True
    then have w: "2048 < width" and m: "max width height = width" using that by auto
    have a: "\<lfloor>(of_int width :: rat) * (2048 / of_int width)\<rfloor> = 2048" using w by simp
    have "(of_int height :: rat) * (2048 / of_int width) \<le> 2048"
      using True w by (simp add: field_simps)
    then have b: "\<lfloor>(of_int height :: rat) * (2048 / of_int width)\<rfloor> \<le> 2048"
      by (simp add: floor_le_iff)
    show ?thesis using that a b m by (simp add: scaledProportionally_def Let_def)
  next
    case False
    then have h: "2048 < height" and m: "max width height = height" using that by auto
    have a: "\<lfloor>(of_int height :: rat) * (2048 / of_int height)\<rfloor> = 2048" using h by simp
    have "(of_int width :: rat) * (2048 / of_int height) \<le> 2048"
      using False h by (simp add: field_simps)
    then have b: "\<lfloor>(of_int width :: rat) * (2048 / of_int height)\<rfloor> \<le> 2048"
      by (simp add: floor_le_iff)
    show ?thesis using that a b m by (simp add: scaledProportionally_def Let_def)
  qed
  have v1: "countImageTokens 1024 1024 ''high'' = 765"
    by (simp add: countImageTokens_def toLowerCase_high)
  have v2: "countImageTokens 512 512 ''high'' = 255"
    by (simp add: countImageTokens_def toLowerCase_high)
  have v4: "countImageTokens 4096 1024 ''high'' = 765"
    by (simp add: countImageTokens_def toLowerCase_high)
  have v5: "scaledProportionally 4096 1024 = (2048, 512)"
    by (simp add: scaledProportionally_def)
  show ?thesis
    using low countImageTokens_high_scaled larger v1 v2 v4 v5 by blast
qed

theorem countImageTokens_formula_witness:
  "(0::int) \<le> 5000 \<and> (0::int) \<le> 3000 \<and> max (5000::int) 3000 > 2048 \<and>
   countImageTokens 5000 3000 ''high'' = highDetailTokens 5000 3000 \<and>
   highDetailTokens 5000 3000 = 2125 \<and>
   scaledProportionally 5000 3000 = (2048, 1228)"
proof -
  have "highDetailTokens 5000 3000 = 2125"
    by code_simp
  moreover have "scaledProportionally 5000 3000 = (2048, 1228)"
    by code_simp
  ultimately show ?thesis
    using countImageTokens_formula [of 5000 3000] by simp
qed

section \<open>Properties of the rolling-context accumulator\<close>

lemma processFlatLoop_commitAll:
  "processFlatLoop modelCosts msgs dayKey hour s agg =
     (case commitAll modelCosts dayKey hour (snd (flatRun msgs s)) agg of
        (Inl e, a) \<Rightarrow> (Inl e, a)
      | (Inr u, a) \<Rightarrow> (Inr (fst (flatRun msgs s)), a))"
  by (induction msgs arbitrary: s agg) (auto split: prod.splits option.splits sum.splits)

lemma flatStep_specStep:
  assumes "wfEntry msg" "flatStep msg s = (s', u)"
  shows "specStep msg (rollingContextTokens s, rollingOutputTokens s) =
           ((rollingContextTokens s', rollingOutputTokens s'),
            (case u of None \<Rightarrow> [] | Some x \<Rightarrow> [x]))"
  using assms
  by (auto simp: flatStep_def specStep_def wfEntry_def Let_def split: if_splits)

lemma flatRun_specRun:
  assumes "\<forall>msg \<in> set msgs. wfEntry msg"
  shows "specRun msgs (rollingContextTokens s, rollingOutputTokens s) =
           ((rollingContextTokens (fst (flatRun msgs s)),
             rollingOutputTokens (fst (flatRun msgs s))), snd (flatRun msgs s))"
  using assms
proof (induction msgs arbitrary: s)
  case Nil
  then show ?case by simp
next
  case (Cons msg rest)
  obtain s' u where st: "flatStep msg s = (s', u)" by (cases "flatStep msg s")
  have wf: "wfEntry msg" and wfr: "\<forall>m \<in> set rest. wfEntry m" using Cons.prems by auto
  note sp = flatStep_specStep [OF wf st]
  note ih = Cons.IH [OF wfr, of s']
  show ?case using st sp ih
    by (cases u) (auto split: prod.splits)
qed

lemma specStep_context_mono:
  assumes "wfEntry msg"
  shows "fst c \<le> fst (fst (specStep msg c))"
  using assms by (auto simp: specStep_def wfEntry_def Let_def)

lemma specRun_context_mono:
  assumes "\<forall>msg \<in> set msgs. wfEntry msg"
  shows "fst c \<le> fst (fst (specRun msgs c))"
  using assms
proof (induction msgs arbitrary: c)
  case Nil
  then show ?case by simp
next
  case (Cons msg rest)
  obtain c' us where st: "specStep msg c = (c', us)" by (cases "specStep msg c")
  have "fst c \<le> fst c'" using specStep_context_mono [of msg c] Cons.prems st by simp
  moreover have "fst c' \<le> fst (fst (specRun rest c'))" using Cons by simp
  ultimately show ?case using st by (auto split: prod.splits)
qed

lemma specRun_append:
  "specRun (xs @ ys) c =
     (case specRun xs c of (c', us) \<Rightarrow> (case specRun ys c' of (c'', us') \<Rightarrow> (c'', us @ us')))"
  by (induction xs arbitrary: c) (auto split: prod.splits)

text \<open>
  Claim C1. For every list of flat entries with non-negative token counts, the function
  commits to the aggregator exactly the usage updates of the specified accumulator run
  from the counters (0, 0), in order, and its two local counters end as the specified
  ones. The specified step skips a reasoning recap, adds search tokens for any role, adds
  content tokens for user, system and tool entries without an update, and for an assistant
  entry adds content and output tokens to the context and output tokens to the pending
  count before a final entry commits (slug, context, pending) and resets the pending count.
  The context count is never reset: it never decreases from a prefix of the entries to the
  whole list.
\<close>

theorem rolling_context_accumulator:
  assumes wfs: "list_all wfEntry flatMessages"
  shows "processFlatMessagesWithTokenCounts modelCosts flatMessages dayKey hour aggregator =
           (case commitAll modelCosts dayKey hour (snd (specRun flatMessages (0, 0))) aggregator of
              (Inl e, a) \<Rightarrow> (Inl e, a)
            | (Inr u, a) \<Rightarrow> (Inr (modelsUsed (fst (flatRun flatMessages initialFlatState))), a)) \<and>
         fst (specRun flatMessages (0, 0)) =
           (rollingContextTokens (fst (flatRun flatMessages initialFlatState)),
            rollingOutputTokens (fst (flatRun flatMessages initialFlatState))) \<and>
         (\<forall>xs ys. flatMessages = xs @ ys \<longrightarrow>
            fst (fst (specRun xs (0, 0))) \<le> fst (fst (specRun flatMessages (0, 0))))"
proof -
  have assms: "\<forall>msg \<in> set flatMessages. wfEntry msg" using wfs by (simp add: list_all_iff)
  have sp: "specRun flatMessages (0, 0) =
      ((rollingContextTokens (fst (flatRun flatMessages initialFlatState)),
        rollingOutputTokens (fst (flatRun flatMessages initialFlatState))),
       snd (flatRun flatMessages initialFlatState))"
    using flatRun_specRun [OF assms, of initialFlatState] by (simp add: initialFlatState_def)
  have a: "processFlatMessagesWithTokenCounts modelCosts flatMessages dayKey hour aggregator =
           (case commitAll modelCosts dayKey hour (snd (specRun flatMessages (0, 0))) aggregator of
              (Inl e, a) \<Rightarrow> (Inl e, a)
            | (Inr u, a) \<Rightarrow> (Inr (modelsUsed (fst (flatRun flatMessages initialFlatState))), a))"
    by (simp add: processFlatMessagesWithTokenCounts_def processFlatLoop_commitAll sp
        split: prod.splits sum.splits)
  have c: "fst (fst (specRun xs (0, 0))) \<le> fst (fst (specRun flatMessages (0, 0)))"
    if "flatMessages = xs @ ys" for xs ys
  proof -
    have wf: "\<forall>m \<in> set ys. wfEntry m" using assms that by simp
    obtain c1 us1 where r1: "specRun xs (0, 0) = (c1, us1)" by (cases "specRun xs (0, 0)")
    obtain c2 us2 where r2: "specRun ys c1 = (c2, us2)" by (cases "specRun ys c1")
    have "fst c1 \<le> fst c2" using specRun_context_mono [OF wf, of c1] r2 by simp
    then show ?thesis unfolding that by (simp add: specRun_append r1 r2)
  qed
  show ?thesis using a sp c by simp
qed

theorem rolling_context_accumulator_witness:
  "list_all wfEntry sampleEntries \<and>
   specRun sampleEntries (0, 0) = ((19, 0), [(''gpt-4o'', 19, 5)]) \<and>
   fst (processFlatMessagesWithTokenCounts MODEL_COSTS sampleEntries ''2023-11-14'' (Num 22)
          emptyAggregator) = Inr [''gpt-4o''] \<and>
   rollingContextTokens (fst (flatRun sampleEntries initialFlatState)) = 19"
proof -
  have wf: "list_all wfEntry sampleEntries"
    by (simp add: sampleEntries_def wfEntry_def contentOf_def outputOf_def searchOf_def)
  have sp: "specRun sampleEntries (0, 0) = ((19, 0), [(''gpt-4o'', 19, 5)])"
    by code_simp
  have pf: "fst (processFlatMessagesWithTokenCounts MODEL_COSTS sampleEntries ''2023-11-14'' (Num 22)
          emptyAggregator) = Inr [''gpt-4o'']"
    by code_simp
  show ?thesis
    using rolling_context_accumulator [OF wf, of MODEL_COSTS "''2023-11-14''" "Num 22" emptyAggregator]
      wf sp pf by simp
qed

lemma twoTurns_flatRun:
  "flatRun (twoTurns slug) initialFlatState =
     (\<lparr>rollingContextTokens = 4, rollingOutputTokens = 0,
       modelsUsed = (if slug = ''unknown_model'' then [] else [slug])\<rparr>,
      [(slug, 2, 1), (slug, 4, 1)])"
  by (simp add: twoTurns_def initialFlatState_def flatStep_def roleOf_def contentOf_def
      outputOf_def searchOf_def slugOf_def setAdd_def)

text \<open>
  Claim C2: what the code does on the two-turn conversation. The accumulator commits
  exactly two usage updates, the first with 2 input tokens and 1 output token, the
  second with 4 input tokens and 1 output token, and the day's totals after the run are
  6 input tokens, 2 output tokens and 2 messages. The loop adds the content and output
  tokens of an assistant entry to \<open>rollingContextTokens\<close> before it passes that sum to
  \<open>updateAggregatorUsage\<close>, so every reply is counted as input to itself. The application
  describes the input tokens of an assistant message as calculated from the cumulative
  context of prior messages, and \<open>updateAggregatorUsage\<close> documents the argument as the
  number of input (prompt) tokens: by both, the updates should carry 1 and 3 input
  tokens, as the claim says.
\<close>

theorem rolling_context_two_turns:
  "snd (flatRun (twoTurns slug) initialFlatState) = [(slug, 2, 1), (slug, 4, 1)] \<and>
   processFlatMessagesWithTokenCounts modelCosts (twoTurns slug) dayKey hour aggregator =
     (case updateAggregatorUsage modelCosts dayKey hour slug 2 1 aggregator of
        (Inl e, a) \<Rightarrow> (Inl e, a)
      | (Inr u, a1) \<Rightarrow>
          (case updateAggregatorUsage modelCosts dayKey hour slug 4 1 a1 of
             (Inl e, a) \<Rightarrow> (Inl e, a)
           | (Inr u, a2) \<Rightarrow> (Inr (if slug = ''unknown_model'' then [] else [slug]), a2))) \<and>
   dayTotals (snd (processFlatMessagesWithTokenCounts MODEL_COSTS (twoTurns ''gpt-4o'')
                     ''2023-11-14'' (Num 22) emptyAggregator)) ''2023-11-14'' = Some (6, 2, 2)"
proof -
  have a: "processFlatMessagesWithTokenCounts modelCosts (twoTurns slug) dayKey hour aggregator =
     (case updateAggregatorUsage modelCosts dayKey hour slug 2 1 aggregator of
        (Inl e, a) \<Rightarrow> (Inl e, a)
      | (Inr u, a1) \<Rightarrow>
          (case updateAggregatorUsage modelCosts dayKey hour slug 4 1 a1 of
             (Inl e, a) \<Rightarrow> (Inl e, a)
           | (Inr u, a2) \<Rightarrow> (Inr (if slug = ''unknown_model'' then [] else [slug]), a2)))"
    by (simp add: processFlatMessagesWithTokenCounts_def processFlatLoop_commitAll
        twoTurns_flatRun split: prod.splits sum.splits)
  have b: "dayTotals (snd (processFlatMessagesWithTokenCounts MODEL_COSTS (twoTurns ''gpt-4o'')
                     ''2023-11-14'' (Num 22) emptyAggregator)) ''2023-11-14'' = Some (6, 2, 2)"
    by code_simp
  show ?thesis using a b by (simp add: twoTurns_flatRun)
qed

text \<open>
  The updates are not those of claim C2 (1 then 3 input tokens), and the day's totals
  after the run are not the 4 input tokens that those updates would leave.
\<close>

theorem rolling_context_two_turns_counterexample:
  "snd (flatRun (twoTurns ''gpt-4o'') initialFlatState) \<noteq> [(''gpt-4o'', 1, 1), (''gpt-4o'', 3, 1)] \<and>
   dayTotals (snd (processFlatMessagesWithTokenCounts MODEL_COSTS (twoTurns ''gpt-4o'')
                     ''2023-11-14'' (Num 22) emptyAggregator)) ''2023-11-14'' \<noteq> Some (4, 2, 2)"
proof -
  have "dayTotals (snd (processFlatMessagesWithTokenCounts MODEL_COSTS (twoTurns ''gpt-4o'')
                     ''2023-11-14'' (Num 22) emptyAggregator)) ''2023-11-14'' = Some (6, 2, 2)"
    by code_simp
  then show ?thesis by (simp add: twoTurns_flatRun)
qed

section \<open>Properties of the usage aggregator\<close>

lemma hourIndex_Some_lt: "hourIndex hs hour = Some h \<Longrightarrow> h < length hs"
  by (auto simp: hourIndex_def split: jsnum.splits if_splits)

lemma sum_list_map_update:
  fixes f :: "'a \<Rightarrow> 'b::comm_monoid_add"
  shows "h < length xs \<Longrightarrow>
    sum_list (map f (list_update xs h y)) + f (xs ! h) = sum_list (map f xs) + f y"
proof (induction xs arbitrary: h)
  case Nil
  then show ?case by simp
next
  case (Cons x xs)
  show ?case
  proof (cases h)
    case 0
    then show ?thesis by (simp add: ac_simps)
  next
    case (Suc k)
    then have "k < length xs" using Cons.prems by simp
    from Cons.IH [OF this] show ?thesis using Suc
      by (simp add: add.assoc)
  qed
qed

lemma list_all_update:
  "list_all P al \<Longrightarrow> P (k, v) \<Longrightarrow> list_all P (AList.update k v al)"
  by (induction al) auto

lemma list_all_map_of:
  "list_all P al \<Longrightarrow> map_of al k = Some v \<Longrightarrow> P (k, v)"
  by (auto simp: list_all_iff dest: map_of_SomeD)

lemma bucketSums_create: "bucketSums createBucketWithHours"
  by (simp add: bucketSums_def createBucketWithHours_def createHourBucket_def sum_list_replicate)

lemma bucketSums_bump:
  assumes "bucketSums b" "h < length (hours b)"
  shows "bucketSums (bumpBucket i o' c h b)"
proof -
  let ?y = "addUsage i o' c (hours b ! h)"
  have a: "sum_list (map input_tokens (list_update (hours b) h ?y)) = input_tokens b + i"
    using sum_list_map_update [OF assms(2), of input_tokens ?y] assms(1)
    by (simp add: bucketSums_def addUsage_def)
  have b: "sum_list (map output_tokens (list_update (hours b) h ?y)) = output_tokens b + o'"
    using sum_list_map_update [OF assms(2), of output_tokens ?y] assms(1)
    by (simp add: bucketSums_def addUsage_def)
  have d: "sum_list (map message_count (list_update (hours b) h ?y)) = message_count b + 1"
    using sum_list_map_update [OF assms(2), of message_count ?y] assms(1)
    by (simp add: bucketSums_def addUsage_def)
  show ?thesis using a b d assms(1)
    by (simp add: bucketSums_def bumpBucket_def addUsage_def)
qed

lemma bucketSums_count: "bucketSums b \<Longrightarrow> bucketSums (countConversation b)"
  by (simp add: bucketSums_def countConversation_def)

lemma zero_create: "hourConversationsZero createBucketWithHours"
  by (simp add: hourConversationsZero_def createBucketWithHours_def createHourBucket_def
      list_all_iff)

lemma zero_bump:
  assumes "hourConversationsZero b" "h < length (hours b)"
  shows "hourConversationsZero (bumpBucket i o' c h b)"
proof -
  have "conversation_count (addUsage i o' c (hours b ! h)) = 0"
    using assms by (simp add: hourConversationsZero_def addUsage_def list_all_length)
  then show ?thesis using assms(1)
    by (auto simp: hourConversationsZero_def bumpBucket_def addUsage_def list_all_iff
        dest!: subsetD [OF set_update_subset_insert])
qed

lemma zero_count: "hourConversationsZero b \<Longrightarrow> hourConversationsZero (countConversation b)"
  by (simp add: hourConversationsZero_def countConversation_def)


lemma allBuckets_storeBuckets:
  assumes "allBuckets P aggregator"
    and "P tb" and "P mb" and "list_all (\<lambda>(slug, b). P b) (models dayBucket)"
  shows "allBuckets P (storeBuckets aggregator dayKey dayBucket modelSlug mb tb)"
  using assms by (simp add: allBuckets_def storeBuckets_def list_all_update)

lemma allBuckets_getDayBucket:
  assumes "allBuckets P aggregator" "P createBucketWithHours"
  shows "P (totalB (getDayBucket aggregator dayKey)) \<and>
         list_all (\<lambda>(slug, b). P b) (models (getDayBucket aggregator dayKey))"
proof (cases "map_of (usageByDay aggregator) dayKey")
  case None
  then show ?thesis using assms(2) by (simp add: getDayBucket_def createDayBucket_def)
next
  case (Some d)
  from list_all_map_of [OF assms(1) [unfolded allBuckets_def] Some]
  show ?thesis using Some by (simp add: getDayBucket_def)
qed

lemma P_getModelBucket:
  assumes "list_all (\<lambda>(slug, b). P b) (models dayBucket)" "P createBucketWithHours"
  shows "P (getModelBucket dayBucket modelSlug)"
proof (cases "map_of (models dayBucket) modelSlug")
  case None
  then show ?thesis using assms(2) by (simp add: getModelBucket_def)
next
  case (Some b)
  from list_all_map_of [OF assms(1) Some] show ?thesis using Some
    by (simp add: getModelBucket_def)
qed

lemma allBuckets_updateAggregatorUsage:
  assumes inv: "allBuckets P aggregator"
    and fresh: "P createBucketWithHours"
    and bump: "\<And>i o' c h b. P b \<Longrightarrow> h < length (hours b) \<Longrightarrow> P (bumpBucket i o' c h b)"
  shows "allBuckets P
     (snd (updateAggregatorUsage modelCosts dayKey hour modelSlug tokensIn tokensOut aggregator))"
proof -
  let ?d = "getDayBucket aggregator dayKey"
  let ?m = "getModelBucket ?d modelSlug"
  have d: "P (totalB ?d)" and ms: "list_all (\<lambda>(slug, b). P b) (models ?d)"
    using allBuckets_getDayBucket [OF inv fresh, of dayKey] by auto
  have m: "P ?m" using P_getModelBucket [OF ms fresh] .
  show ?thesis
  proof (cases "hourIndex (hours ?m) hour")
    case None
    then show ?thesis
      by (simp add: updateAggregatorUsage_def Let_def allBuckets_storeBuckets [OF inv d m ms])
  next
    case (Some h)
    then have hl: "h < length (hours ?m)" by (rule hourIndex_Some_lt)
    have m': "P (bumpBucket tokensIn tokensOut c h ?m)" for c using bump [OF m hl] .
    show ?thesis
    proof (cases "hourIndex (hours (totalB ?d)) hour")
      case None
      then show ?thesis using Some
        by (simp add: updateAggregatorUsage_def Let_def allBuckets_storeBuckets [OF inv d m' ms])
    next
      case h': (Some h')
      then have "h' < length (hours (totalB ?d))" by (rule hourIndex_Some_lt)
      then have d': "P (bumpBucket tokensIn tokensOut c h' (totalB ?d))" for c
        using bump [OF d] by simp
      show ?thesis using Some h'
        by (simp add: updateAggregatorUsage_def Let_def
            allBuckets_storeBuckets [OF inv d' m' ms])
    qed
  qed
qed

lemma fold_countModelConversation:
  assumes "P (totalB d)" "list_all (\<lambda>(slug, b). P b) (models d)"
    and fresh: "P createBucketWithHours"
    and cnt: "\<And>b. P b \<Longrightarrow> P (countConversation b)"
  shows "P (totalB (fold countModelConversation ms d)) \<and>
         list_all (\<lambda>(slug, b). P b) (models (fold countModelConversation ms d))"
  using assms(1,2)
proof (induction ms arbitrary: d)
  case Nil
  then show ?case by simp
next
  case (Cons m ms)
  have "P (getModelBucket d m)" using P_getModelBucket [OF Cons.prems(2) fresh] .
  then have "P (countConversation (getModelBucket d m))" by (rule cnt)
  then have "list_all (\<lambda>(slug, b). P b) (models (countModelConversation m d))"
    using Cons.prems(2) by (simp add: countModelConversation_def list_all_update)
  moreover have "P (totalB (countModelConversation m d))"
    using Cons.prems(1) by (simp add: countModelConversation_def)
  ultimately show ?case using Cons.IH by simp
qed

lemma allBuckets_conversationRollup:
  assumes inv: "allBuckets P aggregator"
    and fresh: "P createBucketWithHours"
    and cnt: "\<And>b. P b \<Longrightarrow> P (countConversation b)"
  shows "allBuckets P (snd (conversationRollup dayKey ms aggregator))"
proof (cases "map_of (usageByDay aggregator) dayKey")
  case None
  then show ?thesis using inv by (simp add: conversationRollup_def)
next
  case (Some d)
  from list_all_map_of [OF inv [unfolded allBuckets_def] Some]
  have d: "P (totalB d)" and ms: "list_all (\<lambda>(slug, b). P b) (models d)" by auto
  let ?d1 = "d\<lparr>totalB := countConversation (totalB d)\<rparr>"
  have "P (totalB ?d1)" "list_all (\<lambda>(slug, b). P b) (models ?d1)"
    using cnt [OF d] ms by auto
  from fold_countModelConversation [of P, OF this fresh cnt, of ms]
  show ?thesis using inv Some
    by (auto simp: conversationRollup_def allBuckets_def intro!: list_all_update)
qed

lemma allBuckets_runOps:
  assumes inv: "allBuckets P aggregator"
    and fresh: "P createBucketWithHours"
    and bump: "\<And>i o' c h b. P b \<Longrightarrow> h < length (hours b) \<Longrightarrow> P (bumpBucket i o' c h b)"
    and cnt: "\<And>b. P b \<Longrightarrow> P (countConversation b)"
  shows "allBuckets P (runOps ops aggregator)"
  using inv unfolding runOps_def
proof (induction ops arbitrary: aggregator)
  case Nil
  then show ?case by simp
next
  case (Cons op ops)
  have "allBuckets P (applyOp op aggregator)"
  proof (cases op)
    case (UsageOp mc dk hr slug i o')
    then show ?thesis
      using allBuckets_updateAggregatorUsage [of P, OF Cons.prems fresh bump] by simp
  next
    case (RollupOp dk ms)
    then show ?thesis
      using allBuckets_conversationRollup [of P, OF Cons.prems fresh cnt] by simp
  qed
  then show ?case using Cons.IH by simp
qed

lemma allBuckets_empty: "allBuckets P emptyAggregator"
  by (simp add: allBuckets_def emptyAggregator_def)


lemma conversation_count_bumpBucket [simp]:
  "conversation_count (bumpBucket i o' c h b) = conversation_count b"
  by (simp add: bumpBucket_def addUsage_def)

lemma cost_bumpBucket [simp]: "cost (bumpBucket i o' c h b) = cost b + c"
  by (simp add: bumpBucket_def addUsage_def)

lemma hour_cost_bumpBucket:
  "h < length (hours b) \<Longrightarrow> cost (hours (bumpBucket i o' c h b) ! h) = cost (hours b ! h) + c"
  by (simp add: bumpBucket_def addUsage_def)

lemma getDayBucket_storeBuckets:
  "getDayBucket (storeBuckets aggregator dayKey d slug mb tb) dk =
     (if dk = dayKey then d\<lparr>totalB := tb, models := AList.update slug mb (models d)\<rparr>
      else getDayBucket aggregator dk)"
  by (simp add: getDayBucket_def storeBuckets_def update_conv')

lemma getModelBucket_update:
  "getModelBucket (d\<lparr>totalB := tb, models := AList.update slug mb (models d)\<rparr>) s =
     (if s = slug then mb else getModelBucket d s)"
  by (simp add: getModelBucket_def update_conv')

lemma dayTotal_storeBuckets:
  "dayTotal (storeBuckets aggregator dayKey d slug mb tb) dk =
     (if dk = dayKey then tb else dayTotal aggregator dk)"
  by (simp add: dayTotal_def getDayBucket_storeBuckets)

lemma modelTotal_storeBuckets:
  "modelTotal (storeBuckets aggregator dayKey (getDayBucket aggregator dayKey) slug mb tb) dk s =
     (if dk = dayKey \<and> s = slug then mb else modelTotal aggregator dk s)"
  by (simp add: modelTotal_def getDayBucket_storeBuckets getModelBucket_update)

text \<open>What a call of \<open>updateAggregatorUsage\<close> that returns leaves in the aggregator.\<close>

lemma updateAggregatorUsage_returns:
  assumes "updateAggregatorUsage modelCosts dayKey hour slug i o' aggregator = (Inr u, a')"
  shows "\<exists>h h'. hourIndex (hours (modelTotal aggregator dayKey slug)) hour = Some h \<and>
           hourIndex (hours (dayTotal aggregator dayKey)) hour = Some h' \<and>
           a' = storeBuckets aggregator dayKey (getDayBucket aggregator dayKey) slug
                  (bumpBucket i o' (usageCost modelCosts slug i o') h
                     (modelTotal aggregator dayKey slug))
                  (bumpBucket i o' (usageCost modelCosts slug i o') h'
                     (dayTotal aggregator dayKey))"
  using assms
  by (auto simp: updateAggregatorUsage_def Let_def modelTotal_def dayTotal_def
      split: option.splits)

lemma usageCost_getCost: "usageCost modelCosts slug i o' = getCost modelCosts slug i o'"
  by (simp add: usageCost_def getCost_def split: option.splits)

text \<open>
  Claim C6. A usage update that returns adds the same cost to the day's total, the
  model's daily total and the two hour buckets: the per-image rate times the output tokens
  for a slug of \<open>IMAGE_MODEL_COSTS\<close>, and otherwise the tokens per million at the
  rates of \<open>MODEL_COSTS\<close>, or at 0 and 0 for a slug the table does not have. It holds
  for all token counts, negative ones included.
\<close>

theorem usage_cost_recorded:
  assumes "updateAggregatorUsage modelCosts dayKey hour slug tokensIn tokensOut aggregator
             = (Inr u, aggregator')"
  shows "cost (dayTotal aggregator' dayKey) =
           cost (dayTotal aggregator dayKey) + getCost modelCosts slug tokensIn tokensOut \<and>
         cost (modelTotal aggregator' dayKey slug) =
           cost (modelTotal aggregator dayKey slug) + getCost modelCosts slug tokensIn tokensOut \<and>
         (\<exists>h. hourIndex (hours (modelTotal aggregator dayKey slug)) hour = Some h \<and>
            cost (hours (modelTotal aggregator' dayKey slug) ! h) =
              cost (hours (modelTotal aggregator dayKey slug) ! h) +
              getCost modelCosts slug tokensIn tokensOut) \<and>
         (\<exists>h. hourIndex (hours (dayTotal aggregator dayKey)) hour = Some h \<and>
            cost (hours (dayTotal aggregator' dayKey) ! h) =
              cost (hours (dayTotal aggregator dayKey) ! h) +
              getCost modelCosts slug tokensIn tokensOut)"
proof -
  from updateAggregatorUsage_returns [OF assms] obtain h h' where
    h: "hourIndex (hours (modelTotal aggregator dayKey slug)) hour = Some h" and
    h': "hourIndex (hours (dayTotal aggregator dayKey)) hour = Some h'" and
    a': "aggregator' = storeBuckets aggregator dayKey (getDayBucket aggregator dayKey) slug
                  (bumpBucket tokensIn tokensOut (usageCost modelCosts slug tokensIn tokensOut) h
                     (modelTotal aggregator dayKey slug))
                  (bumpBucket tokensIn tokensOut (usageCost modelCosts slug tokensIn tokensOut) h'
                     (dayTotal aggregator dayKey))"
    by blast
  note lt = hourIndex_Some_lt [OF h] hourIndex_Some_lt [OF h']
  show ?thesis
    using h h' lt
    by (simp add: a' dayTotal_storeBuckets modelTotal_storeBuckets hour_cost_bumpBucket
        usageCost_getCost)
qed

theorem usage_cost_recorded_witness:
  "fst (updateAggregatorUsage MODEL_COSTS ''2023-11-14'' (Num 22) ''gpt-4o'' 1000000 500000
          emptyAggregator) = Inr () \<and>
   cost (dayTotal (snd (updateAggregatorUsage MODEL_COSTS ''2023-11-14'' (Num 22) ''gpt-4o''
          1000000 500000 emptyAggregator)) ''2023-11-14'') = 25 / 2 \<and>
   getCost MODEL_COSTS ''gpt-4o'' 1000000 500000 = 25 / 2 \<and>
   getCost MODEL_COSTS ''dalle-3'' 0 2 = 4 / 25 \<and>
   getCost MODEL_COSTS ''foo-bar'' 1000 1000 = 0"
proof -
  let ?r = "updateAggregatorUsage MODEL_COSTS ''2023-11-14'' (Num 22) ''gpt-4o''
          1000000 500000 emptyAggregator"
  have f: "fst ?r = Inr ()" by code_simp
  then have r: "?r = (Inr (), snd ?r)" by (simp add: prod_eq_iff)
  have z: "cost (dayTotal emptyAggregator ''2023-11-14'') = 0" by code_simp
  have g1: "getCost MODEL_COSTS ''gpt-4o'' 1000000 500000 = 25 / 2" by code_simp
  have g2: "getCost MODEL_COSTS ''dalle-3'' 0 2 = 4 / 25" by code_simp
  have g3: "getCost MODEL_COSTS ''foo-bar'' 1000 1000 = 0" by code_simp
  show ?thesis using usage_cost_recorded [OF r] f z g1 g2 g3 by simp
qed

text \<open>
  Claim C3, as amended. In every aggregator reached from the empty one by usage updates
  and conversation rollups, every day total and every model bucket has 24 hour buckets
  whose input tokens, output tokens and message counts sum to the bucket's own totals.
  The conversation count is left out: it is kept on the daily buckets only. The cost is
  left out as well: the source adds each update's cost to the hour bucket and to the
  total as floating-point numbers, so after updates in several hours the total and the
  sum over the hours are the same costs added in two orders, equal up to rounding only.
\<close>

theorem hour_sums_invariant:
  "allBuckets bucketSums (runOps ops emptyAggregator)"
  by (rule allBuckets_runOps [OF allBuckets_empty bucketSums_create bucketSums_bump
        bucketSums_count])

lemma updateAggregatorUsage_conversation_count:
  "conversation_count
     (dayTotal (snd (updateAggregatorUsage modelCosts dayKey hour slug i o' aggregator)) dk) =
   conversation_count (dayTotal aggregator dk) \<and>
   conversation_count
     (modelTotal (snd (updateAggregatorUsage modelCosts dayKey hour slug i o' aggregator)) dk s) =
   conversation_count (modelTotal aggregator dk s)"
  apply (simp add: updateAggregatorUsage_def Let_def dayTotal_storeBuckets
      modelTotal_storeBuckets split: option.splits)
  apply (simp add: modelTotal_def dayTotal_def)
  done

lemma getModelBucket_totalB_update [simp]:
  "getModelBucket (d\<lparr>totalB := t\<rparr>) s = getModelBucket d s"
  by (simp add: getModelBucket_def)

lemma getModelBucket_countModelConversation:
  "getModelBucket (countModelConversation m d) s =
     (if s = m then countConversation (getModelBucket d m) else getModelBucket d s)"
  by (simp add: countModelConversation_def getModelBucket_def update_conv')

lemma totalB_fold_countModelConversation [simp]:
  "totalB (fold countModelConversation ms d) = totalB d"
  by (induction ms arbitrary: d) (simp_all add: countModelConversation_def)

lemma hours_fold_countModelConversation:
  "hours (getModelBucket (fold countModelConversation ms d) s) = hours (getModelBucket d s)"
  by (induction ms arbitrary: d)
    (simp_all add: getModelBucket_countModelConversation countConversation_def)

lemma getDayBucket_conversationRollup:
  "getDayBucket (snd (conversationRollup dayKey ms aggregator)) dk =
     (if dk = dayKey \<and> dayKey \<noteq> ''unknown-day'' \<and> ms \<noteq> [] \<and>
         map_of (usageByDay aggregator) dayKey \<noteq> None
      then fold countModelConversation ms
             ((getDayBucket aggregator dayKey)
                \<lparr>totalB := countConversation (totalB (getDayBucket aggregator dayKey))\<rparr>)
      else getDayBucket aggregator dk)"
  by (auto simp: conversationRollup_def getDayBucket_def update_conv' split: option.splits)

lemma conversationRollup_hours:
  "hours (dayTotal (snd (conversationRollup dayKey ms aggregator)) dk) =
     hours (dayTotal aggregator dk) \<and>
   hours (modelTotal (snd (conversationRollup dayKey ms aggregator)) dk s) =
     hours (modelTotal aggregator dk s)"
  by (simp add: dayTotal_def modelTotal_def getDayBucket_conversationRollup
      hours_fold_countModelConversation countConversation_def)

lemma map_conversation_count_bumpBucket:
  "map conversation_count (hours (bumpBucket i o' c h b)) = map conversation_count (hours b)"
proof (cases "h < length (hours b)")
  case True
  have "map conversation_count (list_update (hours b) h (addUsage i o' c (hours b ! h))) =
        list_update (map conversation_count (hours b)) h (conversation_count (hours b ! h))"
    by (simp add: map_update addUsage_def)
  also have "\<dots> = map conversation_count (hours b)"
    using True by (simp add: list_update_same_conv)
  finally show ?thesis by (simp add: bumpBucket_def addUsage_def)
next
  case False
  then have "list_update (hours b) h (addUsage i o' c (hours b ! h)) = hours b"
    by (intro list_update_beyond) simp
  then show ?thesis by (simp add: bumpBucket_def addUsage_def [of i o' c b])
qed

lemma updateAggregatorUsage_hour_conversation_count:
  "map conversation_count
     (hours (dayTotal (snd (updateAggregatorUsage modelCosts dayKey hour slug i o' aggregator)) dk)) =
   map conversation_count (hours (dayTotal aggregator dk)) \<and>
   map conversation_count
     (hours (modelTotal (snd (updateAggregatorUsage modelCosts dayKey hour slug i o' aggregator))
        dk s)) =
   map conversation_count (hours (modelTotal aggregator dk s))"
  apply (simp add: updateAggregatorUsage_def Let_def dayTotal_storeBuckets
      modelTotal_storeBuckets map_conversation_count_bumpBucket split: option.splits)
  apply (simp add: modelTotal_def dayTotal_def)
  done


text \<open>
  Claim C10. In every aggregator reached from the empty one by usage updates and
  conversation rollups, every hour bucket of every bucket has conversation count 0; a
  usage update leaves the conversation count of every day total, of every model bucket
  and of every hour bucket as it was, and a rollup leaves every hour array as it was.
\<close>

theorem hour_conversation_count_zero:
  "allBuckets hourConversationsZero (runOps ops emptyAggregator) \<and>
   conversation_count
     (dayTotal (snd (updateAggregatorUsage modelCosts dayKey hour slug tokensIn tokensOut
        aggregator)) dk) = conversation_count (dayTotal aggregator dk) \<and>
   conversation_count
     (modelTotal (snd (updateAggregatorUsage modelCosts dayKey hour slug tokensIn tokensOut
        aggregator)) dk s) = conversation_count (modelTotal aggregator dk s) \<and>
   hours (dayTotal (snd (conversationRollup dayKey ms aggregator)) dk) =
     hours (dayTotal aggregator dk) \<and>
   hours (modelTotal (snd (conversationRollup dayKey ms aggregator)) dk s) =
     hours (modelTotal aggregator dk s) \<and>
   map conversation_count
     (hours (dayTotal (snd (updateAggregatorUsage modelCosts dayKey hour slug tokensIn tokensOut
        aggregator)) dk)) = map conversation_count (hours (dayTotal aggregator dk)) \<and>
   map conversation_count
     (hours (modelTotal (snd (updateAggregatorUsage modelCosts dayKey hour slug tokensIn tokensOut
        aggregator)) dk s)) = map conversation_count (hours (modelTotal aggregator dk s))"
proof -
  have "allBuckets hourConversationsZero (runOps ops emptyAggregator)"
    by (rule allBuckets_runOps [OF allBuckets_empty zero_create zero_bump zero_count])
  then show ?thesis
    using updateAggregatorUsage_conversation_count conversationRollup_hours
      updateAggregatorUsage_hour_conversation_count by simp
qed

theorem hour_conversation_count_zero_witness:
  "allBuckets hourConversationsZero (runOps sampleOps emptyAggregator) \<and>
   conversation_count (dayTotal (runOps sampleOps emptyAggregator) ''2023-11-14'') = 1 \<and>
   conversation_count (modelTotal (runOps sampleOps emptyAggregator) ''2023-11-14'' ''gpt-4o'') = 1 \<and>
   map conversation_count (hours (dayTotal (runOps sampleOps emptyAggregator) ''2023-11-14''))
     = replicate 24 0"
proof -
  have a: "conversation_count (dayTotal (runOps sampleOps emptyAggregator) ''2023-11-14'') = 1"
    by code_simp
  have b: "conversation_count
             (modelTotal (runOps sampleOps emptyAggregator) ''2023-11-14'' ''gpt-4o'') = 1"
    by code_simp
  have c: "map conversation_count
             (hours (dayTotal (runOps sampleOps emptyAggregator) ''2023-11-14''))
           = replicate 24 0"
    by code_simp
  show ?thesis using hour_conversation_count_zero [of sampleOps] a b c by simp
qed

theorem hour_sums_invariant_witness:
  "allBuckets bucketSums (runOps sampleOps emptyAggregator) \<and>
   dayTotals (runOps sampleOps emptyAggregator) ''2023-11-14'' = Some (10, 5, 1)"
proof -
  have "dayTotals (runOps sampleOps emptyAggregator) ''2023-11-14'' = Some (10, 5, 1)"
    by code_simp
  then show ?thesis using hour_sums_invariant [of sampleOps] by simp
qed

text \<open>
  Claim C3 as stated fails on the conversation count: after one usage update and one
  rollup the day's conversation count is 1 while its hour buckets sum to 0.
\<close>

theorem hour_sums_conversation_count_counterexample:
  "\<not> allBuckets conversationSum (runOps sampleOps emptyAggregator)"
  by code_simp

section \<open>Properties of the tokenizer worker protocol\<close>

lemma settle_other: "promises (settle k v st) r = Some Pending \<longleftrightarrow> (promises st r = Some Pending \<and> (k = r \<longrightarrow> v = Pending))"
  by (auto simp: settle_def)

lemma settle_fields [simp]:
  "pendingRequests (settle k v st) = pendingRequests st"
  "errorCallbacks (settle k v st) = errorCallbacks st"
  "timers (settle k v st) = timers st"
  "nextRequestId (settle k v st) = nextRequestId st"
  "worker (settle k v st) = worker st"
  "workerReady (settle k v st) = workerReady st"
  by (simp_all add: settle_def)

lemma promises_settle_neq [simp]: "k \<noteq> r \<Longrightarrow> promises (settle k v st) r = promises st r"
  by (simp add: settle_def)

lemma fold_settle_fields [simp]:
  "pendingRequests (fold (\<lambda>k. settle k v) ks st) = pendingRequests st"
  "errorCallbacks (fold (\<lambda>k. settle k v) ks st) = errorCallbacks st"
  "timers (fold (\<lambda>k. settle k v) ks st) = timers st"
  "nextRequestId (fold (\<lambda>k. settle k v) ks st) = nextRequestId st"
  by (induction ks arbitrary: st) simp_all

lemma promises_fold_settle: "r \<notin> set ks \<Longrightarrow> promises (fold (\<lambda>k. settle k v) ks st) r = promises st r"
  by (induction ks arbitrary: st) auto

lemma abandoned_attemptPostMessage:
  assumes "abandoned r st" "k \<noteq> r"
  shows "abandoned r (attemptPostMessage k w txt pt st)"
  using assms by (auto simp: abandoned_def attemptPostMessage_def)

lemma abandoned_step:
  assumes "abandoned r st"
  shows "abandoned r (tokenizerStep e st)"
proof (cases e)
  case (CountTextTokens tx pt)
  show ?thesis
  proof (cases "tx = []")
    case True
    then show ?thesis using assms CountTextTokens by (simp add: countTextTokensCall_def)
  next
    case False
    obtain w st1 where i: "initTokenizerWorker st = (w, st1)" by (cases "initTokenizerWorker st")
    then have st1: "abandoned r st1" using assms
      by (auto simp: initTokenizerWorker_def abandoned_def split: option.splits)
    let ?st2 = "st1\<lparr>nextRequestId := Suc (nextRequestId st1),
                      promises := (promises st1)(nextRequestId st1 \<mapsto> Pending),
                      pendingRequests := pendingRequests st1 @ [nextRequestId st1],
                      errorCallbacks := errorCallbacks st1 @ [nextRequestId st1]\<rparr>"
    have ne: "nextRequestId st1 \<noteq> r" using st1 by (simp add: abandoned_def)
    have "abandoned r ?st2" using st1 by (auto simp: abandoned_def)
    from abandoned_attemptPostMessage [OF this ne]
    show ?thesis using CountTextTokens False i by (simp add: countTextTokensCall_def Let_def)
  qed
next
  case (Message m)
  show ?thesis
  proof (cases m)
    case WorkerReady
    then show ?thesis using assms Message by (simp add: onmessage_def abandoned_def)
  next
    case (Response k count err fb)
    show ?thesis
    proof (cases "k = r")
      case True
      then show ?thesis using assms Message Response by (simp add: onmessage_def abandoned_def)
    next
      case False
      then show ?thesis using assms Message Response
        by (auto simp: onmessage_def abandoned_def Let_def split: option.splits)
    qed
  qed
next
  case WorkerError
  then show ?thesis using assms
    by (simp add: onerror_def abandoned_def promises_fold_settle)
next
  case Terminate
  then show ?thesis using assms
    by (auto simp: terminateTokenizerWorker_def abandoned_def split: option.splits)
next
  case (TimerFires k pt)
  show ?thesis
  proof (cases "k < length (timers st)")
    case False
    then show ?thesis using assms TimerFires by (simp add: timerFires_def)
  next
    case True
    obtain q w tx where t: "timers st ! k = (q, w, tx)" by (cases "timers st ! k")
    have "q \<in> set (map fst (timers st))" using True t
      by (metis fst_conv length_map nth_map nth_mem)
    then have ne: "q \<noteq> r" using assms by (auto simp: abandoned_def)
    have sub: "set (take k (timers st) @ drop (Suc k) (timers st)) \<subseteq> set (timers st)"
      by (auto dest: in_set_takeD in_set_dropD)
    have "abandoned r (st\<lparr>timers := take k (timers st) @ drop (Suc k) (timers st)\<rparr>)"
      using assms sub by (auto simp: abandoned_def)
    from abandoned_attemptPostMessage [OF this ne]
    show ?thesis using TimerFires True t by (simp add: timerFires_def)
  qed
qed

lemma abandoned_run: "abandoned r st \<Longrightarrow> abandoned r (tokenizerRun events st)"
  unfolding tokenizerRun_def
  by (induction events arbitrary: st) (simp_all add: abandoned_step)

lemma promises_terminateTokenizerWorker:
  "promises (terminateTokenizerWorker st) = promises st"
  by (simp add: terminateTokenizerWorker_def split: option.splits)

text \<open>
  Claim C9, on the code. The teardown settles no promise: whatever the state, the
  promises stand after \<open>terminateTokenizerWorker\<close> as they stood before. In the run
  where request 1 is posted and the teardown comes before the answer, the teardown clears
  the worker, the readiness flag and both callback maps and leaves the promise of request
  1 pending, and it stays pending after every later sequence of events. A worker error at the
  same point rejects it.
\<close>

theorem terminate_leaves_promises_pending:
  "promises (terminateTokenizerWorker st) = promises st \<and>
   promises (tokenizerRun beforeTeardown initialTokenizer) 1 = Some Pending \<and>
   errorCallbacks (tokenizerRun beforeTeardown initialTokenizer) = [1] \<and>
   worker (tokenizerRun (beforeTeardown @ [Terminate]) initialTokenizer) = None \<and>
   workerReady (tokenizerRun (beforeTeardown @ [Terminate]) initialTokenizer) = False \<and>
   pendingRequests (tokenizerRun (beforeTeardown @ [Terminate]) initialTokenizer) = [] \<and>
   errorCallbacks (tokenizerRun (beforeTeardown @ [Terminate]) initialTokenizer) = [] \<and>
   promises (tokenizerRun (beforeTeardown @ [Terminate]) initialTokenizer) 1 = Some Pending \<and>
   (\<forall>events.
      promises (tokenizerRun events
        (tokenizerRun (beforeTeardown @ [Terminate]) initialTokenizer)) 1 = Some Pending) \<and>
   promises (tokenizerRun (beforeTeardown @ [WorkerError]) initialTokenizer) 1 = Some Rejected"
proof -
  let ?st = "tokenizerRun (beforeTeardown @ [Terminate]) initialTokenizer"
  have a: "promises (tokenizerRun beforeTeardown initialTokenizer) 1 = Some Pending"
    by code_simp
  have b: "errorCallbacks (tokenizerRun beforeTeardown initialTokenizer) = [1]"
    by code_simp
  have c: "worker ?st = None" "workerReady ?st = False" "pendingRequests ?st = []"
    "errorCallbacks ?st = []" "promises ?st 1 = Some Pending"
    by code_simp+
  have d: "timers ?st = []" "nextRequestId ?st = 2"
    by code_simp+
  have "abandoned 1 ?st" using c d by (simp add: abandoned_def)
  then have e: "promises (tokenizerRun events ?st) 1 = Some Pending" for events
    using abandoned_run [of 1 ?st events] by (simp add: abandoned_def)
  have f: "promises (tokenizerRun (beforeTeardown @ [WorkerError]) initialTokenizer) 1
             = Some Rejected"
    by code_simp
  show ?thesis using promises_terminateTokenizerWorker a b c e f by simp
qed

section \<open>Properties of day keys and hours\<close>

lemma digitsOf_small: "n < 10 \<Longrightarrow> digitsOf n = [digitChar n]"
  by (subst digitsOf.simps) simp

lemma digitsOf_large:
  "\<not> n < 10 \<Longrightarrow> digitsOf n = digitsOf (n div 10) @ [digitChar (n mod 10)]"
  by (subst digitsOf.simps) simp

lemma digitsOf_Cons: "\<exists>k rest. nat k < 10 \<and> digitsOf n = digitChar k # rest"
proof (induction n rule: digitsOf.induct)
  case (1 n)
  show ?case
  proof (cases "n < 10")
    case True
    then have "nat n < 10" by simp
    then show ?thesis using True by (auto simp: digitsOf_small)
  next
    case False
    from 1 [OF False] obtain k rest
      where "nat k < 10" "digitsOf (n div 10) = digitChar k # rest"
      by blast
    then show ?thesis using False by (auto simp: digitsOf_large)
  qed
qed

lemma digit_not_u: "nat k < 10 \<Longrightarrow> digitChar k \<noteq> CHR ''u''"
proof -
  assume "nat k < 10"
  then have "''0123456789'' ! nat k \<in> set ''0123456789''" by (intro nth_mem) simp
  then show ?thesis unfolding digitChar_def by auto
qed

lemma showInt_not_u: "\<exists>c rest. showInt i = c # rest \<and> c \<noteq> CHR ''u''"
proof (cases "i < 0")
  case True
  then show ?thesis by (simp add: showInt_def)
next
  case False
  obtain k rest where "nat k < 10" "digitsOf i = digitChar k # rest"
    using digitsOf_Cons by blast
  then show ?thesis using False digit_not_u by (auto simp: showInt_def)
qed

lemma getDayKey_Inr: "\<exists>dayKey. getDayKey t = Inr dayKey \<and> dayKey \<noteq> ''unknown-day''"
proof (cases t)
  case NaN
  then show ?thesis by (simp add: getDayKey_def)
next
  case (Num q)
  show ?thesis
  proof (cases "timeClip (toSeconds q * 1000)")
    case None
    then show ?thesis using Num by (simp add: getDayKey_def)
  next
    case (Some tv)
    obtain y m d where c: "civilFromDays (tv div 86400000) = (y, m, d)"
      by (cases "civilFromDays (tv div 86400000)")
    obtain ch rest where "showInt y = ch # rest" "ch \<noteq> CHR ''u''"
      using showInt_not_u by blast
    then show ?thesis using Num Some c by (simp add: getDayKey_def)
  qed
qed

lemma getHourOfDay_Inr: "\<exists>hour. getHourOfDay t = Inr hour"
  by (auto simp: getHourOfDay_def split: jsnum.splits option.splits)

lemma dayKeyAndHour_known: "fst (dayKeyAndHour t) \<noteq> ''unknown-day''"
proof -
  obtain dk where "getDayKey t = Inr dk" "dk \<noteq> ''unknown-day''" using getDayKey_Inr by blast
  moreover obtain h where "getHourOfDay t = Inr h" using getHourOfDay_Inr by blast
  ultimately show ?thesis by (simp add: dayKeyAndHour_def)
qed

text \<open>A valid date gives an hour from 0 to 23.\<close>

lemma getHourOfDay_valid:
  assumes "\<bar>toSeconds q * 1000\<bar> \<le> 8640000000000000"
  shows "\<exists>h. getHourOfDay (Num q) = Inr (Num (of_nat h)) \<and> h < 24"
proof -
  obtain tv where tv: "timeClip (toSeconds q * 1000) = Some tv"
    using assms by (simp add: timeClip_def)
  let ?h = "(tv mod 86400000) div 3600000"
  have "0 \<le> tv mod 86400000" "tv mod 86400000 < 86400000" by simp_all
  then have "0 \<le> ?h" "?h < 24"
    by (simp_all add: pos_imp_zdiv_nonneg_iff div_less_iff_less_mult)
  then have "(of_int ?h :: rat) = of_nat (nat ?h)" "nat ?h < 24" by (simp_all add: of_nat_nat)
  then show ?thesis using tv by (auto simp: getHourOfDay_def intro!: exI [of _ "nat ?h"])
qed

lemma hourIndex_valid: "h < length hs \<Longrightarrow> hourIndex hs (Num (of_nat h)) = Some h"
  by (simp add: hourIndex_def)


section \<open>Properties of conversation processing\<close>

text \<open>
  Flattening writes the aggregator through \<open>updateAggregatorUsage\<close> only: what that
  function preserves, the whole of \<open>processMappedMessages\<close> preserves.
\<close>

lemma commitAll_preserves:
  assumes step: "\<And>slug i o' a. Q a \<Longrightarrow> Q (snd (updateAggregatorUsage mc dk hr slug i o' a))"
    and "Q aggregator"
  shows "Q (snd (commitAll mc dk hr us aggregator))"
  using assms(2)
proof (induction us arbitrary: aggregator)
  case Nil
  then show ?case by simp
next
  case (Cons u us)
  obtain slug i o' where u: "u = (slug, i, o')" by (cases u)
  obtain r a where r: "updateAggregatorUsage mc dk hr slug i o' aggregator = (r, a)"
    by (cases "updateAggregatorUsage mc dk hr slug i o' aggregator")
  have "Q a" using step [OF Cons.prems, of slug i o'] r by simp
  then show ?case using Cons.IH [of a] u r by (cases r) simp_all
qed

lemma processFlat_preserves:
  assumes step: "\<And>slug i o' a. Q a \<Longrightarrow> Q (snd (updateAggregatorUsage mc dk hr slug i o' a))"
    and "Q aggregator"
  shows "Q (snd (processFlatMessagesWithTokenCounts mc msgs dk hr aggregator))"
proof -
  obtain c a where c: "commitAll mc dk hr (snd (flatRun msgs initialFlatState)) aggregator = (c, a)"
    by (cases "commitAll mc dk hr (snd (flatRun msgs initialFlatState)) aggregator")
  have "Q a"
    using commitAll_preserves [of Q, OF step assms(2), of "snd (flatRun msgs initialFlatState)"] c
    by simp
  then show ?thesis using c
    by (cases c) (simp_all add: processFlatMessagesWithTokenCounts_def processFlatLoop_commitAll)
qed

lemma processNode_preserves:
  assumes step: "\<And>slug i o' a. Q a \<Longrightarrow> Q (snd (updateAggregatorUsage mc dk hr slug i o' a))"
    and "Q aggregator"
  shows "Q (snd (processNode tok mc dk hr node aggregator))"
proof (cases "message node")
  case None
  then show ?thesis using assms(2) by (simp add: processNode_def)
next
  case (Some msg)
  obtain c a where c: "commitAll mc dk hr (nodeImageUpdates msg) aggregator = (c, a)"
    by (cases "commitAll mc dk hr (nodeImageUpdates msg) aggregator")
  have "Q a"
    using commitAll_preserves [of Q, OF step assms(2), of "nodeImageUpdates msg"] c by simp
  then show ?thesis using Some c assms(2)
    by (cases c) (simp_all add: processNode_def split: option.splits)
qed

lemma mappedLoop_preserves:
  assumes step: "\<And>slug i o' a. Q a \<Longrightarrow> Q (snd (updateAggregatorUsage mc dk hr slug i o' a))"
    and "Q aggregator"
  shows "Q (snd (mappedLoop tok mc dk hr nodes acc aggregator))"
  using assms(2)
proof (induction nodes arbitrary: acc aggregator)
  case Nil
  then show ?case by simp
next
  case (Cons kn nodes)
  obtain k node where kn: "kn = (k, node)" by (cases kn)
  obtain r a where r: "processNode tok mc dk hr node aggregator = (r, a)"
    by (cases "processNode tok mc dk hr node aggregator")
  have "Q a" using processNode_preserves [of Q, OF step Cons.prems, of tok node] r by simp
  then show ?case using Cons.IH [of a] kn r
    by (auto split: sum.splits option.splits prod.splits)
qed

lemma processMappedMessages_preserves:
  assumes step: "\<And>slug i o' a. Q a \<Longrightarrow> Q (snd (updateAggregatorUsage mc dk hr slug i o' a))"
    and "Q aggregator"
  shows "Q (snd (processMappedMessages tok mc nodes dk hr aggregator))"
proof -
  obtain r a where r: "mappedLoop tok mc dk hr nodes ([], []) aggregator = (r, a)"
    by (cases "mappedLoop tok mc dk hr nodes ([], []) aggregator")
  have a: "Q a" using mappedLoop_preserves [of Q, OF step assms(2), of tok nodes "([], [])"] r
    by simp
  show ?thesis
  proof (cases r)
    case (Inl e)
    then show ?thesis using r a by (simp add: processMappedMessages_def)
  next
    case (Inr acc)
    obtain msgs used where acc: "acc = (msgs, used)" by (cases acc)
    obtain r2 a2 where r2: "processFlatMessagesWithTokenCounts mc msgs dk hr a = (r2, a2)"
      by (cases "processFlatMessagesWithTokenCounts mc msgs dk hr a")
    have "Q a2" using processFlat_preserves [of Q, OF step a, of msgs] r2 by simp
    then show ?thesis using r Inr acc r2
      by (cases r2) (simp_all add: processMappedMessages_def)
  qed
qed

text \<open>What the flattening returns is what \<open>flattenNodes\<close> computes.\<close>

lemma processNode_Inr:
  assumes "processNode tok mc dk hr node aggregator = (Inr res, a)"
  shows "(case message node of
            None \<Rightarrow> res = None
          | Some msg \<Rightarrow>
              (\<exists>pre entry. preImageTokens tok msg = Some pre \<and>
                 postImageEntry tok node msg pre = Some entry \<and>
                 res = Some (map fst (nodeImageUpdates msg), entry)))"
  using assms
  by (auto simp: processNode_def split: option.splits prod.splits sum.splits)

lemma mappedLoop_flattenNodes:
  assumes "mappedLoop tok mc dk hr nodes acc aggregator = (Inr acc', a)"
  shows "flattenNodes tok nodes acc = Some acc'"
  using assms
proof (induction nodes arbitrary: acc aggregator)
  case Nil
  then show ?case by simp
next
  case (Cons kn nodes)
  obtain k node where kn: "kn = (k, node)" by (cases kn)
  obtain r a1 where r: "processNode tok mc dk hr node aggregator = (r, a1)"
    by (cases "processNode tok mc dk hr node aggregator")
  show ?case
  proof (cases r)
    case (Inl e)
    then show ?thesis using Cons.prems kn r by simp
  next
    case (Inr res)
    note pn = processNode_Inr [OF r [unfolded Inr]]
    show ?thesis
    proof (cases "message node")
      case None
      then have "res = None" using pn by simp
      then show ?thesis using Cons.prems Cons.IH kn r Inr None by simp
    next
      case (Some msg)
      then obtain pre entry where
        "preImageTokens tok msg = Some pre" "postImageEntry tok node msg pre = Some entry"
        "res = Some (map fst (nodeImageUpdates msg), entry)"
        using pn by auto
      then show ?thesis using Cons.prems Cons.IH kn r Inr Some by simp
    qed
  qed
qed

lemma distinct_setAdd: "distinct xs \<Longrightarrow> distinct (setAdd x xs)"
  by (simp add: setAdd_def)

lemma distinct_fold_setAdd: "distinct acc \<Longrightarrow> distinct (fold setAdd xs acc)"
  by (induction xs arbitrary: acc) (simp_all add: distinct_setAdd)

lemma set_fold_setAdd: "set (fold setAdd xs acc) = set xs \<union> set acc"
  by (induction xs arbitrary: acc) (auto simp: setAdd_def)

lemma processMappedMessages_models:
  assumes "processMappedMessages tok mc nodes dk hr aggregator = (Inr used, a)"
  shows "\<exists>entries imageModels. flattenNodes tok nodes ([], []) = Some (entries, imageModels) \<and>
           used = fold setAdd (modelsUsed (fst (flatRun entries initialFlatState))) imageModels"
proof -
  obtain r a1 where r: "mappedLoop tok mc dk hr nodes ([], []) aggregator = (r, a1)"
    by (cases "mappedLoop tok mc dk hr nodes ([], []) aggregator")
  show ?thesis
  proof (cases r)
    case (Inl e)
    then show ?thesis using assms r by (simp add: processMappedMessages_def)
  next
    case (Inr acc)
    obtain entries imageModels where acc: "acc = (entries, imageModels)" by (cases acc)
    have f: "flattenNodes tok nodes ([], []) = Some (entries, imageModels)"
      using mappedLoop_flattenNodes [OF r [unfolded Inr]] acc by simp
    show ?thesis using assms r Inr acc f
      by (auto simp: processMappedMessages_def processFlatMessagesWithTokenCounts_def
          processFlatLoop_commitAll split: prod.splits sum.splits)
  qed
qed


lemma getDayBucket_ensureDayBucket [simp]:
  "getDayBucket (ensureDayBucket dk a) dk' = getDayBucket a dk'"
  by (simp add: ensureDayBucket_def getDayBucket_def update_conv')

lemma conversation_count_fold_countModelConversation:
  "distinct ms \<Longrightarrow>
   conversation_count (getModelBucket (fold countModelConversation ms d) s) =
     conversation_count (getModelBucket d s) + (if s \<in> set ms then 1 else 0)"
  by (induction ms arbitrary: d)
    (auto simp: getModelBucket_countModelConversation countConversation_def)

lemma conversationRollup_counts:
  assumes "conversationRollup dk ms a = (Inr u, a')" "distinct ms" "dk \<noteq> ''unknown-day''"
  shows "conversation_count (dayTotal a' dk') =
           conversation_count (dayTotal a dk') + (if dk' = dk \<and> ms \<noteq> [] then 1 else 0)"
    and "conversation_count (modelTotal a' dk' s) =
           conversation_count (modelTotal a dk' s) + (if dk' = dk \<and> s \<in> set ms then 1 else 0)"
proof -
  have a': "a' = snd (conversationRollup dk ms a)" using assms(1) by simp
  have ex: "ms \<noteq> [] \<Longrightarrow> map_of (usageByDay a) dk \<noteq> None"
    using assms(1,3) by (auto simp: conversationRollup_def split: option.splits)
  show "conversation_count (dayTotal a' dk') =
           conversation_count (dayTotal a dk') + (if dk' = dk \<and> ms \<noteq> [] then 1 else 0)"
    using ex assms(3)
    by (auto simp: a' dayTotal_def getDayBucket_conversationRollup countConversation_def)
  show "conversation_count (modelTotal a' dk' s) =
           conversation_count (modelTotal a dk' s) + (if dk' = dk \<and> s \<in> set ms then 1 else 0)"
  proof -
    have ne: "ms \<noteq> []" if "s \<in> set ms" using that by auto
    have "s \<in> set ms \<Longrightarrow> map_of (usageByDay a) dk \<noteq> None" using ex ne by blast
    then show ?thesis using assms(2,3)
      by (auto simp: a' modelTotal_def getDayBucket_conversationRollup
          conversation_count_fold_countModelConversation)
  qed
qed

lemma processMappedMessages_counts:
  "conversation_count (dayTotal (snd (processMappedMessages tok mc nodes dk hr a)) dk') =
     conversation_count (dayTotal a dk') \<and>
   conversation_count (modelTotal (snd (processMappedMessages tok mc nodes dk hr a)) dk' s) =
     conversation_count (modelTotal a dk' s)"
  by (rule processMappedMessages_preserves
      [of "\<lambda>x. conversation_count (dayTotal x dk') = conversation_count (dayTotal a dk') \<and>
                conversation_count (modelTotal x dk' s) = conversation_count (modelTotal a dk' s)"])
    (simp_all add: updateAggregatorUsage_conversation_count)

lemma discoveredModels_distinct: "distinct (discoveredModels tok conversation)"
  by (simp add: discoveredModels_def distinct_fold_setAdd split: option.splits prod.splits)

lemma processConversation_returns:
  assumes "processConversation tok mc now conversation aggregator = (Inr ms, a')"
  shows "ms = discoveredModels tok conversation"
    and "conversation_count (dayTotal a' dk') =
           conversation_count (dayTotal aggregator dk') +
           (if dk' = conversationDayKey now conversation \<and> ms \<noteq> [] then 1 else 0)"
    and "conversation_count (modelTotal a' dk' s) =
           conversation_count (modelTotal aggregator dk' s) +
           (if dk' = conversationDayKey now conversation \<and> s \<in> set ms then 1 else 0)"
proof -
  obtain dk hr where dh: "dayKeyAndHour (conversationTimestamp now conversation) = (dk, hr)"
    by (cases "dayKeyAndHour (conversationTimestamp now conversation)")
  have dk: "dk = conversationDayKey now conversation" "dk \<noteq> ''unknown-day''"
    using dh dayKeyAndHour_known [of "conversationTimestamp now conversation"]
    by (simp_all add: conversationDayKey_def)
  let ?a0 = "ensureDayBucket dk aggregator"
  have a0: "dayTotal ?a0 dk' = dayTotal aggregator dk'"
    "modelTotal ?a0 dk' s = modelTotal aggregator dk' s"
    by (simp_all add: dayTotal_def modelTotal_def)
  obtain a1 where
    ms: "ms = discoveredModels tok conversation" and
    c1: "conversation_count (dayTotal a1 dk') = conversation_count (dayTotal aggregator dk')"
        "conversation_count (modelTotal a1 dk' s) = conversation_count (modelTotal aggregator dk' s)" and
    ru: "conversationRollup dk ms a1 = (Inr (), a')"
  proof (cases "mapping conversation")
    case None
    then have "ms = discoveredModels tok conversation" "conversationRollup dk ms ?a0 = (Inr (), a')"
      using assms dh
      by (auto simp: processConversation_def discoveredModels_def split: prod.splits sum.splits)
    then show ?thesis using that [of ?a0] a0 by simp
  next
    case (Some nodes)
    obtain r a1 where r: "processMappedMessages tok mc nodes dk hr ?a0 = (r, a1)"
      by (cases "processMappedMessages tok mc nodes dk hr ?a0")
    then obtain used where used: "r = Inr used"
      using assms dh Some by (cases r) (simp_all add: processConversation_def)
    from processMappedMessages_models [OF r [unfolded used]]
    have m: "fold setAdd used [] = discoveredModels tok conversation"
      using Some by (auto simp: discoveredModels_def)
    have ru: "ms = fold setAdd used []" "conversationRollup dk ms a1 = (Inr (), a')"
      using assms dh Some r used
      by (auto simp: processConversation_def split: prod.splits sum.splits)
    have "conversation_count (dayTotal a1 dk') = conversation_count (dayTotal ?a0 dk')"
      "conversation_count (modelTotal a1 dk' s) = conversation_count (modelTotal ?a0 dk' s)"
      using processMappedMessages_counts [of tok mc nodes dk hr ?a0 dk' s] r by simp_all
    then show ?thesis using that [of a1] ru m a0 by simp
  qed
  have di: "distinct ms" using ms discoveredModels_distinct by simp
  show "ms = discoveredModels tok conversation" by (rule ms)
  show "conversation_count (dayTotal a' dk') =
           conversation_count (dayTotal aggregator dk') +
           (if dk' = conversationDayKey now conversation \<and> ms \<noteq> [] then 1 else 0)"
    using conversationRollup_counts(1) [OF ru di dk(2), of dk'] c1 dk(1) by simp
  show "conversation_count (modelTotal a' dk' s) =
           conversation_count (modelTotal aggregator dk' s) +
           (if dk' = conversationDayKey now conversation \<and> s \<in> set ms then 1 else 0)"
    using conversationRollup_counts(2) [OF ru di dk(2), of dk' s] c1 dk(1) by simp
qed

lemma dayTotal_allModelSlugs [simp]:
  "dayTotal (a\<lparr>allModelSlugs := x\<rparr>) dk = dayTotal a dk"
  "modelTotal (a\<lparr>allModelSlugs := x\<rparr>) dk s = modelTotal a dk s"
  by (simp_all add: dayTotal_def modelTotal_def getDayBucket_def)

lemma dayTotal_totalCost [simp]:
  "dayTotal (a\<lparr>totalCostAllModels := x\<rparr>) dk = dayTotal a dk"
  "modelTotal (a\<lparr>totalCostAllModels := x\<rparr>) dk s = modelTotal a dk s"
  by (simp_all add: dayTotal_def modelTotal_def getDayBucket_def)

lemma conversationsLoop_counts:
  assumes "conversationsLoop tok mc clock i data aggregator = (Inr u, a')"
  shows "conversation_count (dayTotal a' dk) =
           conversation_count (dayTotal aggregator dk) +
           length (filter (\<lambda>c. discoveredModels tok c \<noteq> []) (conversationsOn clock dk i data)) \<and>
         conversation_count (modelTotal a' dk s) =
           conversation_count (modelTotal aggregator dk s) +
           length (filter (\<lambda>c. s \<in> set (discoveredModels tok c)) (conversationsOn clock dk i data))"
  using assms
proof (induction data arbitrary: i aggregator)
  case Nil
  then show ?case by simp
next
  case (Cons entry rest)
  show ?case
  proof (cases entry)
    case None
    then show ?thesis using Cons by simp
  next
    case (Some conversation)
    obtain r a1 where r: "processConversation tok mc (clock i) conversation aggregator = (r, a1)"
      by (cases "processConversation tok mc (clock i) conversation aggregator")
    then obtain ms where ms: "r = Inr ms" using Cons.prems Some by (cases r) simp_all
    note pc = processConversation_returns(1) [OF r [unfolded ms]]
      processConversation_returns(2) [OF r [unfolded ms], of dk]
      processConversation_returns(3) [OF r [unfolded ms], of dk s]
    have loop: "conversationsLoop tok mc clock (Suc i) rest
                  (a1\<lparr>allModelSlugs := fold setAdd ms (allModelSlugs a1)\<rparr>) = (Inr u, a')"
      using Cons.prems Some r ms by simp
    from Cons.IH [OF loop] show ?thesis using Some pc by auto
  qed
qed

text \<open>
  Claim C4, as amended. When \<open>processConversations\<close> returns, the conversation count
  of a day's total is the number of conversations of the input array that fall on that day
  and whose set of discovered models is not empty, and the conversation count of a model
  on that day is the number of those conversations whose set contains the model. A
  conversation is counted once for its day and once for each of its models, whatever the
  number of its messages, and whether or not it made a usage update.
\<close>

theorem conversation_count_per_conversation:
  assumes "processConversations tok clock modelCosts data = (Inr aggregator, modelCosts')"
  shows "conversation_count (dayTotal aggregator dayKey) =
           length (filter (\<lambda>c. discoveredModels tok c \<noteq> [])
                     (conversationsOn clock dayKey 0 data)) \<and>
         conversation_count (modelTotal aggregator dayKey slug) =
           length (filter (\<lambda>c. slug \<in> set (discoveredModels tok c))
                     (conversationsOn clock dayKey 0 data))"
proof -
  let ?mc = "snd (scanForModelSlugs data None modelCosts)"
  from assms obtain s e a u where
    loop: "conversationsLoop tok ?mc clock 0 data (emptyAggregator\<lparr>startDate := s, endDate := e\<rparr>)
             = (Inr u, a)" and
    agg: "aggregator = a\<lparr>totalCostAllModels :=
            Some (sum_list (map (\<lambda>(dayKey, d). cost (totalB d)) (usageByDay a)))\<rparr>"
    by (auto simp: processConversations_def Let_def split: option.splits sum.splits prod.splits)
  have z: "conversation_count (dayTotal (emptyAggregator\<lparr>startDate := s, endDate := e\<rparr>) dayKey) = 0"
    "conversation_count (modelTotal (emptyAggregator\<lparr>startDate := s, endDate := e\<rparr>) dayKey slug) = 0"
    by (simp_all add: dayTotal_def modelTotal_def getDayBucket_def getModelBucket_def
        emptyAggregator_def createDayBucket_def createBucketWithHours_def)
  from conversationsLoop_counts [OF loop, of dayKey slug] show ?thesis using z agg by simp
qed


theorem conversation_count_per_conversation_witness:
  "(\<exists>a c. processConversations sampleTokenizer (\<lambda>i. 0) MODEL_COSTS sampleData = (Inr a, c) \<and>
      conversation_count (dayTotal a ''2023-11-14'') = 2 \<and>
      conversation_count (modelTotal a ''2023-11-14'' ''gpt-4o'') = 2 \<and>
      conversation_count (modelTotal a ''2023-11-16'' ''o3'') = 1 \<and>
      message_count (dayTotal a ''2023-11-14'') = 2)"
proof -
  let ?r = "processConversations sampleTokenizer (\<lambda>i. 0) MODEL_COSTS sampleData"
  have m: "dayCounts (fst ?r) ''2023-11-14'' = Some (2, 2)" by code_simp
  then obtain a where a: "fst ?r = Inr a" by (cases "fst ?r") (simp_all add: dayCounts_def)
  then have r: "?r = (Inr a, snd ?r)" by (simp add: prod_eq_iff)
  have n1: "length (filter (\<lambda>c. discoveredModels sampleTokenizer c \<noteq> [])
              (conversationsOn (\<lambda>i. 0) ''2023-11-14'' 0 sampleData)) = 2"
    by code_simp
  have n2: "length (filter (\<lambda>c. ''gpt-4o'' \<in> set (discoveredModels sampleTokenizer c))
              (conversationsOn (\<lambda>i. 0) ''2023-11-14'' 0 sampleData)) = 2"
    by code_simp
  have n3: "length (filter (\<lambda>c. ''o3'' \<in> set (discoveredModels sampleTokenizer c))
              (conversationsOn (\<lambda>i. 0) ''2023-11-16'' 0 sampleData)) = 1"
    by code_simp
  have m': "message_count (dayTotal a ''2023-11-14'') = 2" using m by (simp add: a dayCounts_def)
  show ?thesis
    using conversation_count_per_conversation [OF r, of "''2023-11-14''" "''gpt-4o''"]
      conversation_count_per_conversation [OF r, of "''2023-11-16''" "''o3''"]
      n1 n2 n3 m' r by auto
qed

text \<open>
  Claim C4 as stated fails in both directions. A conversation whose only assistant
  message is not final makes no usage update (the day's message count stays 0) and is
  counted; a conversation whose final assistant message has no model slug makes a usage
  update under "unknown_model" and is not counted.
\<close>

theorem conversation_count_counterexample:
  "dayCounts (fst (processConversations sampleTokenizer (\<lambda>i. 0) MODEL_COSTS
      [Some (sampleConversation (Some (Num 1700000000)) ''gpt-4o'' False)])) ''2023-11-14''
     = Some (1, 0) \<and>
   dayCounts (fst (processConversations sampleTokenizer (\<lambda>i. 0) MODEL_COSTS
      [Some (sampleConversation (Some (Num 1700000000)) [] True)])) ''2023-11-14''
     = Some (0, 1)"
  by code_simp


section \<open>When processing returns\<close>

lemma countTextTokens_resolves: "resolves tok \<Longrightarrow> \<exists>n. countTextTokens tok s = Some n"
  by (auto simp: resolves_def countTextTokens_def)

lemma userParts_resolves: "resolves tok \<Longrightarrow> \<exists>n. userParts tok ps acc = Some n"
proof (induction tok ps acc rule: userParts.induct)
  case (2 tok s ps acc)
  then show ?case using countTextTokens_resolves [of tok s] by auto
qed auto

lemma toolParts_resolves: "resolves tok \<Longrightarrow> \<exists>n. toolParts tok ps acc = Some n"
proof (induction tok ps acc rule: toolParts.induct)
  case (2 tok s ps acc)
  then show ?case using countTextTokens_resolves [of tok s] by auto
qed auto

lemma thoughtTokens_resolves: "resolves tok \<Longrightarrow> \<exists>n. thoughtTokens tok ts acc = Some n"
proof (induction tok ts acc rule: thoughtTokens.induct)
  case (2 tok t ts acc)
  then show ?case
    using countTextTokens_resolves [of tok "thought_content t"]
      countTextTokens_resolves [of tok "summary t"]
    by auto
qed auto

lemma assistantParts_resolves: "resolves tok \<Longrightarrow> \<exists>r. assistantParts tok ps acc = Some r"
proof (induction tok ps acc rule: assistantParts.induct)
  case (2 tok s ps c out)
  then show ?case using countTextTokens_resolves [of tok s] by auto
qed auto

lemma userSystemTokens_resolves: "resolves tok \<Longrightarrow> \<exists>n. userSystemTokens tok msg = Some n"
proof -
  assume r: "resolves tok"
  obtain a where a: "countTextTokens tok (content_text (content msg)) = Some a"
    using countTextTokens_resolves [OF r] by blast
  obtain b where b: "countTextTokens tok (about_model_message (metadata msg)) = Some b"
    using countTextTokens_resolves [OF r] by blast
  show ?thesis
  proof (cases "parts (content msg)")
    case None
    then show ?thesis using a b by (simp add: userSystemTokens_def)
  next
    case (Some ps)
    obtain n where "userParts tok ps 0 = Some n" using userParts_resolves [OF r] by blast
    then show ?thesis using Some b by (simp add: userSystemTokens_def)
  qed
qed

lemma preImageTokens_resolves: "resolves tok \<Longrightarrow> \<exists>pre. preImageTokens tok msg = Some pre"
proof -
  assume r: "resolves tok"
  obtain n where n: "userSystemTokens tok msg = Some n"
    using userSystemTokens_resolves [OF r] by blast
  have tp: "\<exists>k. toolParts tok ps c = Some k" for ps c using toolParts_resolves [OF r] .
  show ?thesis
  proof (cases "parts (content msg)")
    case None
    then show ?thesis using n by (simp add: preImageTokens_def)
  next
    case (Some ps)
    obtain k0 where k0: "toolParts tok ps 0 = Some k0" using tp by blast
    obtain k1 where k1: "toolParts tok ps n = Some k1" using tp by blast
    show ?thesis using Some n k0 k1 by (simp add: preImageTokens_def)
  qed
qed

lemma assistantTokens_resolves:
  assumes r: "resolves tok"
  shows "\<exists>r. assistantTokens tok msg c slug = Some r"
proof -
  have ct: "countTextTokens tok s \<noteq> None" for s
    using countTextTokens_resolves [OF r, of s] by auto
  have th: "thoughtTokens tok ts acc \<noteq> None" for ts acc
    using thoughtTokens_resolves [OF r, of ts acc] by auto
  have ap: "assistantParts tok ps acc \<noteq> None" for ps acc
    using assistantParts_resolves [OF r, of ps acc] by auto
  have "assistantTokens tok msg c slug \<noteq> None"
    by (simp add: assistantTokens_def Let_def ct th ap split: option.split prod.split)
  then show ?thesis by auto
qed

lemma postImageEntry_resolves:
  assumes r: "resolves tok"
  shows "\<exists>entry. postImageEntry tok node msg pre = Some entry"
proof -
  obtain x where "assistantTokens tok msg (fst pre) (nodeModelSlug node msg) = Some x"
    using assistantTokens_resolves [OF r] by blast
  then show ?thesis by (auto simp: postImageEntry_def split: prod.splits)
qed

lemma hours24_create: "hours24 createBucketWithHours"
  by (simp add: hours24_def createBucketWithHours_def)

lemma hours24_bump: "hours24 b \<Longrightarrow> h < length (hours b) \<Longrightarrow> hours24 (bumpBucket i o' c h b)"
  by (simp add: hours24_def bumpBucket_def addUsage_def)

lemma hours24_count: "hours24 b \<Longrightarrow> hours24 (countConversation b)"
  by (simp add: hours24_def countConversation_def)

lemma updateAggregatorUsage_hours24:
  "allBuckets hours24 a \<Longrightarrow>
   allBuckets hours24 (snd (updateAggregatorUsage mc dk hr slug i o' a))"
  by (rule allBuckets_updateAggregatorUsage [OF _ hours24_create hours24_bump])

lemma updateAggregatorUsage_succeeds:
  assumes "allBuckets hours24 a" "h < 24"
  shows "fst (updateAggregatorUsage mc dk (Num (of_nat h)) slug i o' a) = Inr ()"
proof -
  have d: "hours24 (totalB (getDayBucket a dk))"
    and ms: "list_all (\<lambda>(slug, b). hours24 b) (models (getDayBucket a dk))"
    using allBuckets_getDayBucket [OF assms(1) hours24_create, of dk] by auto
  have m: "hours24 (getModelBucket (getDayBucket a dk) slug)"
    using P_getModelBucket [OF ms hours24_create] .
  have "hourIndex (hours (getModelBucket (getDayBucket a dk) slug)) (Num (of_nat h)) = Some h"
    "hourIndex (hours (totalB (getDayBucket a dk))) (Num (of_nat h)) = Some h"
    using d m assms(2) by (simp_all add: hours24_def hourIndex_valid)
  then show ?thesis by (simp add: updateAggregatorUsage_def Let_def)
qed

lemma commitAll_succeeds:
  assumes "allBuckets hours24 a" "h < 24"
  shows "fst (commitAll mc dk (Num (of_nat h)) us a) = Inr ()"
  using assms(1)
proof (induction us arbitrary: a)
  case Nil
  then show ?case by simp
next
  case (Cons u us)
  obtain slug i o' where u: "u = (slug, i, o')" by (cases u)
  obtain r a1 where r: "updateAggregatorUsage mc dk (Num (of_nat h)) slug i o' a = (r, a1)"
    by (cases "updateAggregatorUsage mc dk (Num (of_nat h)) slug i o' a")
  have "r = Inr ()" using updateAggregatorUsage_succeeds [OF Cons.prems assms(2), of mc dk slug i o'] r
    by simp
  moreover have "allBuckets hours24 a1"
    using updateAggregatorUsage_hours24 [OF Cons.prems, of mc dk "Num (of_nat h)" slug i o'] r
    by simp
  ultimately show ?case using Cons.IH [of a1] u r by simp
qed

lemma commitAll_hours24:
  "allBuckets hours24 a \<Longrightarrow> allBuckets hours24 (snd (commitAll mc dk hr us a))"
  by (rule commitAll_preserves [of "allBuckets hours24"]) (simp_all add: updateAggregatorUsage_hours24)

lemma processFlat_succeeds:
  assumes "allBuckets hours24 a" "h < 24"
  shows "fst (processFlatMessagesWithTokenCounts mc msgs dk (Num (of_nat h)) a) =
           Inr (modelsUsed (fst (flatRun msgs initialFlatState)))"
proof -
  obtain c a1 where
    c: "commitAll mc dk (Num (of_nat h)) (snd (flatRun msgs initialFlatState)) a = (c, a1)"
    by (cases "commitAll mc dk (Num (of_nat h)) (snd (flatRun msgs initialFlatState)) a")
  have "c = Inr ()"
    using commitAll_succeeds [OF assms, of mc dk "snd (flatRun msgs initialFlatState)"] c by simp
  then show ?thesis using c
    by (simp add: processFlatMessagesWithTokenCounts_def processFlatLoop_commitAll)
qed

lemma processNode_succeeds:
  assumes "resolves tok" "allBuckets hours24 a" "h < 24"
  shows "\<exists>res. fst (processNode tok mc dk (Num (of_nat h)) node a) = Inr res"
proof (cases "message node")
  case None
  then show ?thesis by (simp add: processNode_def)
next
  case (Some msg)
  obtain pre where pre: "preImageTokens tok msg = Some pre"
    using preImageTokens_resolves [OF assms(1)] by blast
  obtain entry where entry: "postImageEntry tok node msg pre = Some entry"
    using postImageEntry_resolves [OF assms(1)] by blast
  obtain c a1 where c: "commitAll mc dk (Num (of_nat h)) (nodeImageUpdates msg) a = (c, a1)"
    by (cases "commitAll mc dk (Num (of_nat h)) (nodeImageUpdates msg) a")
  have "c = Inr ()"
    using commitAll_succeeds [OF assms(2,3), of mc dk "nodeImageUpdates msg"] c by simp
  then show ?thesis using Some pre entry c by (simp add: processNode_def)
qed

lemma mappedLoop_succeeds:
  assumes "resolves tok" "allBuckets hours24 a" "h < 24"
  shows "\<exists>res. fst (mappedLoop tok mc dk (Num (of_nat h)) nodes acc a) = Inr res"
  using assms(2)
proof (induction nodes arbitrary: acc a)
  case Nil
  then show ?case by simp
next
  case (Cons kn nodes)
  obtain k node where kn: "kn = (k, node)" by (cases kn)
  obtain r a1 where r: "processNode tok mc dk (Num (of_nat h)) node a = (r, a1)"
    by (cases "processNode tok mc dk (Num (of_nat h)) node a")
  obtain res where res: "r = Inr res"
    using processNode_succeeds [OF assms(1) Cons.prems assms(3), of mc dk node] r by auto
  have "allBuckets hours24 a1"
    using processNode_preserves [of "allBuckets hours24" mc dk "Num (of_nat h)" a tok node]
      updateAggregatorUsage_hours24 Cons.prems r by simp
  from Cons.IH [OF this] show ?case using kn r res
    by (cases res) (auto split: prod.splits)
qed


lemma updateAggregatorUsage_dayExists:
  "dayExists dk a \<Longrightarrow> dayExists dk (snd (updateAggregatorUsage mc dk' hr slug i o' a))"
  by (simp add: dayExists_def updateAggregatorUsage_def Let_def storeBuckets_def update_conv'
      split: option.splits)

lemma updateAggregatorUsage_other_day:
  "dk \<noteq> dk' \<Longrightarrow>
   getDayBucket (snd (updateAggregatorUsage mc dk' hr slug i o' a)) dk = getDayBucket a dk"
  by (simp add: updateAggregatorUsage_def Let_def getDayBucket_storeBuckets split: option.splits)

lemma processMappedMessages_succeeds:
  assumes "resolves tok" "allBuckets hours24 a" "h < 24"
  shows "\<exists>used. fst (processMappedMessages tok mc nodes dk (Num (of_nat h)) a) = Inr used"
proof -
  obtain r a1 where r: "mappedLoop tok mc dk (Num (of_nat h)) nodes ([], []) a = (r, a1)"
    by (cases "mappedLoop tok mc dk (Num (of_nat h)) nodes ([], []) a")
  obtain acc where acc: "r = Inr acc"
    using mappedLoop_succeeds [OF assms, of mc dk nodes "([], [])"] r by auto
  obtain msgs used where mu: "acc = (msgs, used)" by (cases acc)
  have a1: "allBuckets hours24 a1"
    using mappedLoop_preserves [of "allBuckets hours24" mc dk "Num (of_nat h)" a tok nodes "([], [])"]
      updateAggregatorUsage_hours24 assms(2) r by simp
  obtain r2 a2 where
    r2: "processFlatMessagesWithTokenCounts mc msgs dk (Num (of_nat h)) a1 = (r2, a2)"
    by (cases "processFlatMessagesWithTokenCounts mc msgs dk (Num (of_nat h)) a1")
  have "\<exists>x. r2 = Inr x" using processFlat_succeeds [OF a1 assms(3), of mc msgs dk] r2 by simp
  then show ?thesis using r acc mu r2 by (auto simp: processMappedMessages_def)
qed

lemma conversationRollup_succeeds:
  "dayExists dk a \<Longrightarrow> fst (conversationRollup dk ms a) = Inr ()"
  by (auto simp: dayExists_def conversationRollup_def)

lemma ensureDayBucket_dayExists:
  "dk \<noteq> ''unknown-day'' \<Longrightarrow> dayExists dk (ensureDayBucket dk a)"
  by (simp add: dayExists_def ensureDayBucket_def update_conv')

lemma ensureDayBucket_hours24:
  "allBuckets hours24 a \<Longrightarrow> allBuckets hours24 (ensureDayBucket dk a)"
  by (simp add: allBuckets_def ensureDayBucket_def list_all_update createDayBucket_def
      hours24_create)

text \<open>A clock reading inside the range of \<open>Date\<close> gives a day key and an hour from 0 to 23.\<close>

lemma clock_hour:
  assumes "0 \<le> now" "now \<le> 8640000000000000"
  shows "\<exists>dk h. dayKeyAndHour (Num (of_int now / 1000)) = (dk, Num (of_nat h)) \<and> h < 24 \<and>
           dk \<noteq> ''unknown-day''"
proof -
  let ?q = "of_int now / 1000 :: rat"
  have q0: "0 \<le> ?q" using assms(1) by simp
  have "0 \<le> toSeconds ?q * 1000 \<and> toSeconds ?q * 1000 \<le> of_int now"
  proof (cases "?q > 100000000000")
    case True
    have "of_int \<lfloor>?q / 1000\<rfloor> \<le> ?q / 1000" by (rule of_int_floor_le)
    moreover have "?q / 1000 * 1000 \<le> of_int now" using assms(1)
      by (simp add: field_simps)
    moreover have "0 \<le> \<lfloor>?q / 1000\<rfloor>" using q0 by simp
    ultimately show ?thesis using True by (simp add: toSeconds_def field_simps)
  next
    case False
    then show ?thesis using q0 by (simp add: toSeconds_def)
  qed
  then have "\<bar>toSeconds ?q * 1000\<bar> \<le> 8640000000000000"
    using assms(2) by (simp add: abs_if)
  from getHourOfDay_valid [OF this] obtain h where
    h: "getHourOfDay (Num ?q) = Inr (Num (of_nat h))" "h < 24" by blast
  obtain dk where dk: "getDayKey (Num ?q) = Inr dk" "dk \<noteq> ''unknown-day''"
    using getDayKey_Inr by blast
  show ?thesis using h dk by (simp add: dayKeyAndHour_def)
qed

lemma processConversation_succeeds:
  assumes "create_time conversation = None" "resolves tok" "allBuckets hours24 a"
    "0 \<le> now" "now \<le> 8640000000000000"
  shows "fst (processConversation tok mc now conversation a) = Inr (discoveredModels tok conversation)"
proof -
  obtain dk h where dh: "dayKeyAndHour (conversationTimestamp now conversation) = (dk, Num (of_nat h))"
    and h: "h < 24" and dk: "dk \<noteq> ''unknown-day''"
    using clock_hour [OF assms(4,5)] assms(1) by (auto simp: conversationTimestamp_def)
  let ?a0 = "ensureDayBucket dk a"
  have a0: "allBuckets hours24 ?a0" "dayExists dk ?a0"
    using ensureDayBucket_hours24 [OF assms(3)] ensureDayBucket_dayExists [OF dk] by simp_all
  obtain r a' where r: "processConversation tok mc now conversation a = (r, a')"
    by (cases "processConversation tok mc now conversation a")
  have "\<exists>ms. r = Inr ms"
  proof (cases "mapping conversation")
    case None
    then show ?thesis using r dh conversationRollup_succeeds [OF a0(2), of "[]"]
      by (auto simp: processConversation_def split: prod.splits sum.splits)
  next
    case (Some nodes)
    obtain r1 a1 where r1: "processMappedMessages tok mc nodes dk (Num (of_nat h)) ?a0 = (r1, a1)"
      by (cases "processMappedMessages tok mc nodes dk (Num (of_nat h)) ?a0")
    obtain used where used: "r1 = Inr used"
      using processMappedMessages_succeeds [OF assms(2) a0(1) h, of mc nodes dk] r1 by auto
    have "dayExists dk a1"
      using processMappedMessages_preserves [of "dayExists dk" mc dk "Num (of_nat h)" ?a0 tok nodes]
        updateAggregatorUsage_dayExists a0(2) r1 by simp
    from conversationRollup_succeeds [OF this, of "fold setAdd used []"]
    show ?thesis using r dh Some r1 used
      by (auto simp: processConversation_def split: prod.splits sum.splits)
  qed
  then obtain ms where ms: "r = Inr ms" by blast
  from processConversation_returns(1) [OF r [unfolded ms]] show ?thesis using r ms by simp
qed


section \<open>Timestamps and the wall clock\<close>

lemma processConversation_other_days:
  assumes "dk' \<noteq> conversationDayKey now conversation"
  shows "getDayBucket (snd (processConversation tok mc now conversation a)) dk' = getDayBucket a dk'"
proof -
  obtain dk hr where dh: "dayKeyAndHour (conversationTimestamp now conversation) = (dk, hr)"
    by (cases "dayKeyAndHour (conversationTimestamp now conversation)")
  have ne: "dk' \<noteq> dk" using assms dh by (simp add: conversationDayKey_def)
  let ?a0 = "ensureDayBucket dk a"
  have ru: "getDayBucket (snd (conversationRollup dk ms x)) dk' = getDayBucket x dk'" for ms x
    using ne by (simp add: getDayBucket_conversationRollup)
  show ?thesis
  proof (cases "mapping conversation")
    case None
    obtain r2 a2 where r2: "conversationRollup dk [] ?a0 = (r2, a2)"
      by (cases "conversationRollup dk [] ?a0")
    have "getDayBucket a2 dk' = getDayBucket a dk'" using ru [of "[]" ?a0] r2 by simp
    then show ?thesis using None dh r2 by (cases r2) (simp_all add: processConversation_def)
  next
    case (Some nodes)
    obtain r1 a1 where r1: "processMappedMessages tok mc nodes dk hr ?a0 = (r1, a1)"
      by (cases "processMappedMessages tok mc nodes dk hr ?a0")
    have a1: "getDayBucket a1 dk' = getDayBucket a dk'"
      using processMappedMessages_preserves
        [of "\<lambda>x. getDayBucket x dk' = getDayBucket a dk'" mc dk hr ?a0 tok nodes]
        updateAggregatorUsage_other_day [OF ne] r1 by simp
    show ?thesis
    proof (cases r1)
      case (Inl e)
      then show ?thesis using Some dh r1 a1 by (simp add: processConversation_def)
    next
      case (Inr used)
      obtain r2 a2 where r2: "conversationRollup dk (fold setAdd used []) a1 = (r2, a2)"
        by (cases "conversationRollup dk (fold setAdd used []) a1")
      have "getDayBucket a2 dk' = getDayBucket a dk'"
        using ru [of "fold setAdd used []" a1] r2 a1 by simp
      then show ?thesis using Some dh r1 Inr r2
        by (cases r2) (simp_all add: processConversation_def)
    qed
  qed
qed

lemma timestampRange_undated:
  assumes "create_time conversation = None"
  shows "timestampRange (before @ Some conversation # after) acc =
         timestampRange (before @ after) acc"
proof (induction before arbitrary: acc)
  case Nil
  then show ?case using assms by simp
next
  case (Cons entry before)
  then show ?case by (simp split: option.splits jsnum.splits)
qed

lemma processConversation_undated:
  assumes "create_time conversation = None"
  shows "processConversation tok mc now conversation a =
         processConversation tok mc now'
           (conversation\<lparr>create_time := Some (Num (of_int now / 1000))\<rparr>) a"
  using assms by (simp add: processConversation_def conversationTimestamp_def)

lemma processConversation_dated:
  assumes "create_time conversation \<noteq> None"
  shows "processConversation tok mc now conversation a =
         processConversation tok mc now' conversation a"
  using assms by (auto simp: processConversation_def conversationTimestamp_def)

lemma conversationsLoop_clock:
  assumes "list_all hasCreateTime data"
  shows "conversationsLoop tok mc clock1 i data a = conversationsLoop tok mc clock2 j data a"
  using assms
proof (induction data arbitrary: i j a)
  case Nil
  then show ?case by simp
next
  case (Cons entry rest)
  show ?case
  proof (cases entry)
    case None
    then show ?thesis using Cons.IH [of "Suc i" _ "Suc j"] Cons.prems by simp
  next
    case (Some conversation)
    then have "create_time conversation \<noteq> None" using Cons.prems by (simp add: hasCreateTime_def)
    from processConversation_dated [OF this, of tok mc "clock1 i" a "clock2 j"]
    show ?thesis using Some Cons.IH [of "Suc i" _ "Suc j"] Cons.prems
      by (simp split: prod.splits sum.splits)
  qed
qed

lemma map_of_fold_addPlaceholder:
  "(map_of (fold addPlaceholder ms c) m \<noteq> None) = (m \<in> set ms \<or> map_of c m \<noteq> None)"
  by (induction ms arbitrary: c) (auto simp: addPlaceholder_def update_conv')

lemma scanForModelSlugs_idem:
  "snd (scanForModelSlugs data maxScan (snd (scanForModelSlugs data maxScan mc))) =
   snd (scanForModelSlugs data maxScan mc)"
proof -
  define scanCount where "scanCount =
     (case maxScan of None \<Rightarrow> length data
      | Some n \<Rightarrow> if n = 0 then length data else min (length data) n)"
  define found where "found =
     fold scanConversation (take scanCount data) [''dalle-2'', ''dalle-3'', ''gpt-image-1'']"
  define mc1 where "mc1 =
     fold addPlaceholder (filter (\<lambda>m. map_of mc m = None \<and> m \<noteq> ''unknown_model'') found) mc"
  have s1: "snd (scanForModelSlugs data maxScan mc) = mc1"
    by (simp add: scanForModelSlugs_def Let_def mc1_def found_def scanCount_def)
  have "filter (\<lambda>m. map_of mc1 m = None \<and> m \<noteq> ''unknown_model'') found = []"
  proof -
    have "\<not> (map_of mc1 m = None \<and> m \<noteq> ''unknown_model'')" if "m \<in> set found" for m
      using that map_of_fold_addPlaceholder
        [of "filter (\<lambda>m. map_of mc m = None \<and> m \<noteq> ''unknown_model'') found" mc m]
      by (auto simp: mc1_def)
    then show ?thesis by (simp add: filter_empty_conv)
  qed
  then have "snd (scanForModelSlugs data maxScan mc1) = mc1"
    by (simp add: scanForModelSlugs_def Let_def found_def scanCount_def)
  then show ?thesis using s1 by simp
qed

lemma snd_processConversations:
  "snd (processConversations tok clock mc data) = snd (scanForModelSlugs data None mc)"
  by (simp add: processConversations_def Let_def split: option.splits sum.splits prod.splits)

text \<open>
  Claim C7, as amended. When every conversation of the input has a \<open>create_time\<close>
  (any value but null), the result of \<open>processConversations\<close> is the same whatever the
  clock reads during the run, and a second run, which starts from the pricing table the first
  run left, returns the same as the first.
\<close>

theorem clock_independence:
  assumes "list_all hasCreateTime data"
  shows "processConversations tok clock1 modelCosts data =
           processConversations tok clock2 modelCosts data \<and>
         fst (processConversations tok clock2
                (snd (processConversations tok clock1 modelCosts data)) data) =
           fst (processConversations tok clock1 modelCosts data)"
proof -
  have l: "conversationsLoop tok mc clock1 0 data x = conversationsLoop tok mc clock2 0 data x"
    for mc x
    by (rule conversationsLoop_clock [OF assms])
  have a: "processConversations tok clock1 mc data = processConversations tok clock2 mc data"
    for mc
    unfolding processConversations_def Let_def l by (rule refl)
  let ?mc1 = "snd (scanForModelSlugs data None modelCosts)"
  have "processConversations tok clock2 ?mc1 data =
        processConversations tok clock2 modelCosts data"
    unfolding processConversations_def Let_def scanForModelSlugs_idem by (rule refl)
  then show ?thesis using a [of modelCosts] by (simp add: snd_processConversations)
qed

text \<open>
  Claim C8, as amended. A conversation whose \<open>create_time\<close> is null or missing is
  processed exactly as a conversation created at the clock reading \<open>Date.now() / 1000\<close>:
  its day key is that of the clock and never "unknown-day", no bucket of another day is
  touched, it contributes nothing to the range behind \<open>startDate\<close> and \<open>endDate\<close>,
  and, when the tokenizer resolves every request, the aggregator's hour arrays have 24
  entries and the clock is inside the range of \<open>Date\<close>, the call returns the
  conversation's models without throwing.
\<close>

theorem missing_timestamp_uses_clock:
  assumes "create_time conversation = None"
  shows "processConversation tok modelCosts now conversation aggregator =
           processConversation tok modelCosts now'
             (conversation\<lparr>create_time := Some (Num (of_int now / 1000))\<rparr>) aggregator \<and>
         conversationDayKey now conversation \<noteq> ''unknown-day'' \<and>
         (\<forall>dayKey. dayKey \<noteq> conversationDayKey now conversation \<longrightarrow>
            getDayBucket (snd (processConversation tok modelCosts now conversation aggregator))
              dayKey = getDayBucket aggregator dayKey) \<and>
         timestampRange (before @ Some conversation # after) acc =
           timestampRange (before @ after) acc \<and>
         (resolves tok \<and> allBuckets hours24 aggregator \<and> 0 \<le> now \<and>
          now \<le> 8640000000000000 \<longrightarrow>
            fst (processConversation tok modelCosts now conversation aggregator) =
              Inr (discoveredModels tok conversation))"
  using processConversation_undated [OF assms] dayKeyAndHour_known
    processConversation_other_days timestampRange_undated [OF assms]
    processConversation_succeeds [OF assms]
  by (simp add: conversationDayKey_def)


lemma resolves_sampleTokenizer: "resolves sampleTokenizer"
  by (simp add: resolves_def sampleTokenizer_def)

theorem clock_independence_witness:
  "list_all hasCreateTime sampleData \<and>
   processConversations sampleTokenizer (\<lambda>i. 1700000000000) MODEL_COSTS sampleData =
     processConversations sampleTokenizer (\<lambda>i. 1800000000000) MODEL_COSTS sampleData \<and>
   resultDayKeys (fst (processConversations sampleTokenizer (\<lambda>i. 1800000000000) MODEL_COSTS
     sampleData)) = Some [''2023-11-14'', ''2023-11-16'']"
proof -
  have h: "list_all hasCreateTime sampleData"
    by (simp add: sampleData_def hasCreateTime_def sampleConversation_def)
  have k: "resultDayKeys (fst (processConversations sampleTokenizer (\<lambda>i. 1800000000000)
             MODEL_COSTS sampleData)) = Some [''2023-11-14'', ''2023-11-16'']"
    by code_simp
  show ?thesis
    using clock_independence [OF h, of sampleTokenizer "\<lambda>i. 1700000000000" MODEL_COSTS
        "\<lambda>i. 1800000000000"] h k
    by simp
qed

text \<open>
  Claim C7 as stated fails for a conversation without \<open>create_time\<close>: two runs on the
  same input at two clock readings put its usage under two different day keys.
\<close>

theorem clock_dependence_counterexample:
  "resultDayKeys (fst (processConversations sampleTokenizer (\<lambda>i. 1700000000000) MODEL_COSTS
     [Some undatedConversation])) = Some [''2023-11-14''] \<and>
   resultDayKeys (fst (processConversations sampleTokenizer (\<lambda>i. 1800000000000) MODEL_COSTS
     [Some undatedConversation])) = Some [''2027-01-15''] \<and>
   fst (processConversations sampleTokenizer (\<lambda>i. 1700000000000) MODEL_COSTS
     [Some undatedConversation]) \<noteq>
   fst (processConversations sampleTokenizer (\<lambda>i. 1800000000000) MODEL_COSTS
     [Some undatedConversation])"
proof -
  have a: "resultDayKeys (fst (processConversations sampleTokenizer (\<lambda>i. 1700000000000)
             MODEL_COSTS [Some undatedConversation])) = Some [''2023-11-14'']"
    by code_simp
  have b: "resultDayKeys (fst (processConversations sampleTokenizer (\<lambda>i. 1800000000000)
             MODEL_COSTS [Some undatedConversation])) = Some [''2027-01-15'']"
    by code_simp
  show ?thesis using a b by auto
qed

theorem missing_timestamp_uses_clock_witness:
  "create_time undatedConversation = None \<and>
   resolves sampleTokenizer \<and> allBuckets hours24 emptyAggregator \<and>
   conversationDayKey 1700000000000 undatedConversation = ''2023-11-14'' \<and>
   fst (processConversation sampleTokenizer MODEL_COSTS 1700000000000 undatedConversation
          emptyAggregator) = Inr [''gpt-4o''] \<and>
   getDayBucket (snd (processConversation sampleTokenizer MODEL_COSTS 1700000000000
          undatedConversation emptyAggregator)) ''unknown-day'' = createDayBucket"
proof -
  have c: "create_time undatedConversation = None"
    by (simp add: undatedConversation_def sampleConversation_def)
  have k: "conversationDayKey 1700000000000 undatedConversation = ''2023-11-14''"
    by code_simp
  have d: "discoveredModels sampleTokenizer undatedConversation = [''gpt-4o'']"
    by code_simp
  have e: "getDayBucket emptyAggregator ''unknown-day'' = createDayBucket"
    by (simp add: getDayBucket_def emptyAggregator_def)
  note t = missing_timestamp_uses_clock [OF c, of sampleTokenizer MODEL_COSTS 1700000000000
        emptyAggregator 0 "[]" "[]" None]
  note other = t [THEN conjunct2, THEN conjunct2, THEN conjunct1, rule_format, of "''unknown-day''"]
  note returns = t [THEN conjunct2, THEN conjunct2, THEN conjunct2, THEN conjunct2, rule_format]
  have r: "fst (processConversation sampleTokenizer MODEL_COSTS 1700000000000
             undatedConversation emptyAggregator) = Inr [''gpt-4o'']"
    using returns resolves_sampleTokenizer allBuckets_empty [of hours24] d by simp
  have u: "getDayBucket (snd (processConversation sampleTokenizer MODEL_COSTS 1700000000000
             undatedConversation emptyAggregator)) ''unknown-day'' = createDayBucket"
    using other k e by simp
  show ?thesis
    using c k r u resolves_sampleTokenizer allBuckets_empty [of hours24] by simp
qed

text \<open>
  Claim C8 as stated fails. With a missing \<open>create_time\<close> the usage and the
  conversation count go to the day of the clock, and no "unknown-day" bucket exists. With
  a \<open>create_time\<close> that is not a number the day key is "NaN-NaN-NaN", the hour is
  \<open>NaN\<close>, and the first usage update throws a \<open>TypeError\<close>.
\<close>

theorem unknown_day_counterexample:
  "map fst (usageByDay (snd (processConversation sampleTokenizer MODEL_COSTS 1700000000000
      undatedConversation emptyAggregator))) = [''2023-11-14''] \<and>
   conversation_count (dayTotal (snd (processConversation sampleTokenizer MODEL_COSTS
      1700000000000 undatedConversation emptyAggregator)) ''2023-11-14'') = 1 \<and>
   fst (processConversation sampleTokenizer MODEL_COSTS 1700000000000
      (sampleConversation (Some NaN) ''gpt-4o'' True) emptyAggregator) = Inl TypeError \<and>
   map fst (usageByDay (snd (processConversation sampleTokenizer MODEL_COSTS 1700000000000
      (sampleConversation (Some NaN) ''gpt-4o'' True) emptyAggregator))) = [''NaN-NaN-NaN'']"
  by code_simp


end
